theory Spec2Isabelle
  imports Main "HOL-Library.AList"
begin

section \<open>Text and parse results\<close>

text \<open>
  The query text is a Python \<open>str\<close>. It is modelled as a HOL \<open>string\<close>, one \<open>char\<close> per
  code point, so the model covers the texts whose code points are below 256. A string
  that the parser decodes from a quoted literal can hold any code point (the escape
  \<open>\uXXXX\<close>), so decoded strings are lists of code points.
\<close>

type_synonym ustr = "nat list"

definition ustr :: "string \<Rightarrow> ustr" where
  "ustr s = map of_char s"

text \<open>
  The exceptions that leave the parser: \<open>int\<close> and \<open>float\<close> raise \<open>ValueError\<close>,
  \<open>query_parser\<close> raises \<open>AttributeError\<close> with a message, and \<open>Parser.parse\<close> raises
  \<open>ParseError\<close> when the parser fails or stops before the end of the text.
  \<open>NonTermination\<close> is not an exception: it stands for the loop of \<open>Parser.times\<close> that never
  ends, which is what parsy does when a parser repeated without upper bound succeeds
  without consuming input.
\<close>

datatype exn = ValueError | AttributeError ustr | ParseError | NonTermination

text \<open>
  A parsy parser maps a stream and an index to a result. Here a parser reads the text
  from the current index on and answers with the value and the number of characters
  it consumed (\<open>Ok\<close>), with a failure the caller may recover from (\<open>Fail\<close>), or with an
  exception that ends the whole parse (\<open>Raise\<close>).
\<close>

datatype 'a result = Ok 'a nat | Fail | Raise exn

type_synonym 'a parser = "string \<Rightarrow> 'a result"

section \<open>The parsy combinators used by the grammar\<close>

definition success :: "'a \<Rightarrow> 'a parser" where
  "success v s = Ok v 0"

definition pstring :: "string \<Rightarrow> string parser" where
  "pstring lit s = (if take (length lit) s = lit then Ok lit (length lit) else Fail)"

definition bind :: "'a parser \<Rightarrow> ('a \<Rightarrow> 'b parser) \<Rightarrow> 'b parser" where
  "bind p f s =
     (case p s of
        Ok a n \<Rightarrow>
          (case f a (drop n s) of
             Ok b m \<Rightarrow> Ok b (n + m)
           | Fail \<Rightarrow> Fail
           | Raise e \<Rightarrow> Raise e)
      | Fail \<Rightarrow> Fail
      | Raise e \<Rightarrow> Raise e)"

definition map_p :: "('a \<Rightarrow> 'b) \<Rightarrow> 'a parser \<Rightarrow> 'b parser" where
  "map_p g p = bind p (\<lambda>a. success (g a))"

definition result_p :: "'a parser \<Rightarrow> 'b \<Rightarrow> 'b parser" where
  "result_p p v = bind p (\<lambda>_. success v)"

text \<open>\<open>p >> q\<close> keeps the value of \<open>q\<close>, \<open>p << q\<close> the value of \<open>p\<close>.\<close>

definition then_p :: "'a parser \<Rightarrow> 'b parser \<Rightarrow> 'b parser" where
  "then_p p q = bind p (\<lambda>_. q)"

definition skip :: "'a parser \<Rightarrow> 'b parser \<Rightarrow> 'a parser" where
  "skip p q = bind p (\<lambda>a. bind q (\<lambda>_. success a))"

text \<open>\<open>p | q\<close> runs \<open>q\<close> at the same index when \<open>p\<close> fails; an exception is not caught.\<close>

definition alt :: "'a parser \<Rightarrow> 'a parser \<Rightarrow> 'a parser" where
  "alt p q s = (case p s of Fail \<Rightarrow> q s | r \<Rightarrow> r)"

text \<open>
  \<open>p.times(0, inf)\<close>, which is \<open>p.many()\<close>: the loop runs \<open>p\<close> until it fails. When \<open>p\<close>
  succeeds and the index has not moved, the loop of parsy runs forever.
\<close>

function many :: "'a parser \<Rightarrow> 'a list parser" where
  "many p s =
     (case p s of
        Ok a n \<Rightarrow>
          (if length (drop n s) < length s then
             (case many p (drop n s) of
                Ok as m \<Rightarrow> Ok (a # as) (n + m)
              | Fail \<Rightarrow> Fail
              | Raise e \<Rightarrow> Raise e)
           else Raise NonTermination)
      | Fail \<Rightarrow> Ok [] 0
      | Raise e \<Rightarrow> Raise e)"
  by pat_completeness auto
termination
  by (relation "measure (\<lambda>(p, s). length s)") auto

declare many.simps [simp del]

text \<open>\<open>p.at_least(1)\<close> is \<open>p.times(1) + p.many()\<close>.\<close>

definition at_least1 :: "'a parser \<Rightarrow> 'a list parser" where
  "at_least1 p = bind p (\<lambda>a. map_p (\<lambda>as. a # as) (many p))"

text \<open>\<open>p.optional()\<close> is \<open>p.times(0, 1)\<close> mapped to the value or \<open>None\<close>.\<close>

definition optional :: "'a parser \<Rightarrow> 'a option parser" where
  "optional p = alt (map_p Some p) (success None)"

text \<open>
  \<open>p.sep_by(sep)\<close> with the default bounds is
  \<open>(p.times(1) + (sep >> p).times(-1, inf)) | success([])\<close>.
\<close>

definition sep_by :: "'a parser \<Rightarrow> 'b parser \<Rightarrow> 'a list parser" where
  "sep_by p sep = alt (bind p (\<lambda>a. map_p (\<lambda>as. a # as) (many (then_p sep p)))) (success [])"

text \<open>\<open>Parser.parse\<close>: the parser followed by \<open>eof\<close>, or \<open>ParseError\<close>.\<close>

definition parse :: "'a parser \<Rightarrow> string \<Rightarrow> exn + 'a" where
  "parse p s =
     (case p s of
        Ok a n \<Rightarrow> (if drop n s = [] then Inr a else Inl ParseError)
      | Fail \<Rightarrow> Inl ParseError
      | Raise e \<Rightarrow> Inl e)"

section \<open>The lexical rules\<close>

definition code :: "char \<Rightarrow> nat" where
  "code c = of_char c"

text \<open>\<open>\s\<close> in a \<open>str\<close> pattern is \<open>str.isspace\<close>; these are its code points below 256.\<close>

definition isspace :: "char \<Rightarrow> bool" where
  "isspace c = (code c \<in> {9, 10, 11, 12, 13, 28, 29, 30, 31, 32, 133, 160})"

definition decimal :: "char \<Rightarrow> bool" where
  "decimal c = (48 \<le> code c \<and> code c \<le> 57)"

text \<open>
  \<open>str.isdigit\<close> below 256: the decimal digits and the superscripts two, three and one,
  which \<open>int\<close> and \<open>float\<close> do not accept.
\<close>

definition isdigit :: "char \<Rightarrow> bool" where
  "isdigit c = (decimal c \<or> code c \<in> {178, 179, 185})"

definition letter :: "char \<Rightarrow> bool" where
  "letter c = ((65 \<le> code c \<and> code c \<le> 90) \<or> (97 \<le> code c \<and> code c \<le> 122))"

definition hexdigit :: "char \<Rightarrow> bool" where
  "hexdigit c = (decimal c \<or> (97 \<le> code c \<and> code c \<le> 102) \<or> (65 \<le> code c \<and> code c \<le> 70))"

definition whitespace :: "string parser" where
  "whitespace s = Ok (takeWhile isspace s) (length (takeWhile isspace s))"

definition lexeme :: "'a parser \<Rightarrow> 'a parser" where
  "lexeme p = skip (then_p whitespace p) whitespace"

text \<open>\<open>reduce(lambda x, y: x | y, ps)\<close> over a list that is not empty.\<close>

fun alts :: "'a parser \<Rightarrow> 'a parser list \<Rightarrow> 'a parser" where
  "alts p [] = p"
| "alts p (q # qs) = alts (alt p q) qs"

definition operationP :: "string parser" where
  "operationP = alts (lexeme (pstring ''<=''))
     (map (\<lambda>a. lexeme (pstring a))
        [''>='', ''>'', ''<'', ''=='', ''!='', ''=~'', ''!~'', ''in'', ''not in''])"

definition functionP :: "string parser" where
  "functionP = alts (lexeme (pstring ''in_subnet'')) [lexeme (pstring ''has_desired_change'')]"

definition preamblePropP :: "string parser" where
  "preamblePropP = alts (lexeme (pstring ''edge_type'')) []"

definition lparenP :: "string parser" where "lparenP = lexeme (pstring ''('')"
definition rparenP :: "string parser" where "rparenP = lexeme (pstring '')'')"
definition lbrackP :: "string parser" where "lbrackP = lexeme (pstring ''['')"
definition rbrackP :: "string parser" where "rbrackP = lexeme (pstring '']'')"
definition gtP :: "string parser" where "gtP = lexeme (pstring ''>'')"
definition ltP :: "string parser" where "ltP = lexeme (pstring ''<'')"
definition colonP :: "string parser" where "colonP = lexeme (pstring '':'')"
definition commaP :: "string parser" where "commaP = lexeme (pstring '','')"
definition dotdotP :: "string parser" where "dotdotP = lexeme (pstring ''..'')"
definition equalsP :: "string parser" where "equalsP = lexeme (pstring ''='')"

definition trueP :: "bool parser" where "trueP = result_p (lexeme (pstring ''true'')) True"
definition falseP :: "bool parser" where "falseP = result_p (lexeme (pstring ''false'')) False"
definition nullP :: "unit parser" where "nullP = result_p (lexeme (pstring ''null'')) ()"

text \<open>\<open>digit\<close> is \<open>test_char(lambda c: c.isdigit())\<close>: one character, as a string.\<close>

definition digit :: "string parser" where
  "digit s = (case s of [] \<Rightarrow> Fail | c # _ \<Rightarrow> if isdigit c then Ok [c] 1 else Fail)"

definition concat_p :: "'a list list parser \<Rightarrow> 'a list parser" where
  "concat_p p = map_p concat p"

text \<open>\<open>p + q\<close> on parsers that yield lists.\<close>

definition plus_p :: "'a list parser \<Rightarrow> 'a list parser \<Rightarrow> 'a list parser" where
  "plus_p p q = bind p (\<lambda>a. map_p (\<lambda>b. a @ b) q)"

text \<open>\<open>p.map(f)\<close> for an \<open>f\<close> that may raise.\<close>

definition map_raising :: "('a \<Rightarrow> exn + 'b) \<Rightarrow> 'a parser \<Rightarrow> 'b parser" where
  "map_raising g p = bind p (\<lambda>a s. case g a of Inl e \<Rightarrow> Raise e | Inr b \<Rightarrow> Ok b 0)"

text \<open>
  \<open>int(text)\<close> and \<open>float(text)\<close> on the texts the grammar passes to them: \<open>isdigit\<close>
  characters, with one dot for \<open>float\<close>. Both raise \<open>ValueError\<close> on a character that
  is not a decimal digit and on a text without any digit. The value of a float is kept
  as its literal. The bound that recent interpreters put on the number of digits of an
  \<open>int\<close> literal is left out.
\<close>

definition digits_value :: "string \<Rightarrow> int" where
  "digits_value ds = foldl (\<lambda>a c. 10 * a + (int (code c) - 48)) 0 ds"

definition py_int :: "string \<Rightarrow> exn + int" where
  "py_int text =
     (if text \<noteq> [] \<and> list_all decimal text then Inr (digits_value text) else Inl ValueError)"

definition py_float :: "string \<Rightarrow> exn + string" where
  "py_float text =
     (let ds = filter (\<lambda>c. c \<noteq> CHR ''.'') text
      in if ds \<noteq> [] \<and> list_all decimal ds then Inr text else Inl ValueError)"

definition integerP :: "int parser" where
  "integerP = map_raising py_int (concat_p (at_least1 digit))"

definition floatP :: "string parser" where
  "floatP = map_raising py_float
     (concat_p (plus_p (plus_p (many digit) (result_p (pstring ''.'') [''.''])) (many digit)))"

text \<open>\<open>regex("[A-Za-z][A-Za-z0-9.*\\[\\]]*")\<close> and \<open>regex("[A-Za-z][A-Za-z0-9]*")\<close>.\<close>

definition variable_char :: "char \<Rightarrow> bool" where
  "variable_char c = (letter c \<or> decimal c \<or> c \<in> {CHR ''.'', CHR ''*'', CHR ''['', CHR '']''})"

definition literal_char :: "char \<Rightarrow> bool" where
  "literal_char c = (letter c \<or> decimal c)"

definition regex_word :: "(char \<Rightarrow> bool) \<Rightarrow> string parser" where
  "regex_word rest s =
     (case s of
        [] \<Rightarrow> Fail
      | c # cs \<Rightarrow>
          if letter c then Ok (c # takeWhile rest cs) (Suc (length (takeWhile rest cs)))
          else Fail)"

definition variableP :: "string parser" where
  "variableP = lexeme (regex_word variable_char)"

definition literalP :: "string parser" where
  "literalP = lexeme (regex_word literal_char)"

text \<open>The quoted string: \<open>regex(r'[^"\\]+')\<close> for plain text, and the escapes.\<close>

definition quote :: char where "quote = CHR 0x22"
definition backslash :: char where "backslash = CHR 0x5C"

definition string_part :: "ustr parser" where
  "string_part s =
     (let w = takeWhile (\<lambda>c. c \<noteq> quote \<and> c \<noteq> backslash) s
      in if w = [] then Fail else Ok (ustr w) (length w))"

definition hex_value :: "string \<Rightarrow> nat" where
  "hex_value hs = foldl (\<lambda>a c. 16 * a +
     (if decimal c then code c - 48 else if 97 \<le> code c then code c - 87 else code c - 55)) 0 hs"

text \<open>\<open>regex(r"u[0-9a-fA-F]{4}").map(lambda s: chr(int(s[1:], 16)))\<close>.\<close>

definition unicode_esc :: "ustr parser" where
  "unicode_esc s =
     (if take 1 s = ''u'' \<and> length (take 4 (drop 1 s)) = 4 \<and> list_all hexdigit (take 4 (drop 1 s))
      then Ok [hex_value (take 4 (drop 1 s))] 5 else Fail)"

definition string_esc :: "ustr parser" where
  "string_esc = then_p (pstring [backslash])
     (alts (map_p ustr (pstring [backslash]))
        [map_p ustr (pstring ''/''),
         map_p ustr (pstring [quote]),
         result_p (pstring ''b'') [8],
         result_p (pstring ''f'') [12],
         result_p (pstring ''n'') [10],
         result_p (pstring ''r'') [13],
         result_p (pstring ''t'') [9],
         unicode_esc])"

definition stringP :: "ustr parser" where
  "stringP = concat_p (many (alt string_part string_esc))"

definition quotedStringP :: "ustr parser" where
  "quotedStringP = lexeme (skip (then_p (pstring [quote]) stringP) (pstring [quote]))"

section \<open>Congruence rules and consumption of input\<close>

text \<open>
  The recursive parsers are defined through the combinators. The congruence rules tell
  the function package at which texts a combinator calls its arguments. A parser is
  \<open>advancing\<close> when the rest of the text is shorter after each success.
\<close>

lemma bind_cong [fundef_cong]:
  "s = s' \<Longrightarrow> p s' = p' s' \<Longrightarrow> (\<And>a n. p' s' = Ok a n \<Longrightarrow> f a (drop n s') = f' a (drop n s'))
   \<Longrightarrow> bind p f s = bind p' f' s'"
  by (auto simp: bind_def split: result.splits)

lemma alt_cong [fundef_cong]:
  "s = s' \<Longrightarrow> p s' = p' s' \<Longrightarrow> (p' s' = Fail \<Longrightarrow> q s' = q' s') \<Longrightarrow> alt p q s = alt p' q' s'"
  by (auto simp: alt_def split: result.splits)

lemma map_p_cong [fundef_cong]:
  "s = s' \<Longrightarrow> p s' = p' s' \<Longrightarrow> map_p g p s = map_p g p' s'"
  by (auto simp: map_p_def bind_def split: result.splits)

lemma then_p_cong [fundef_cong]:
  "s = s' \<Longrightarrow> p s' = p' s' \<Longrightarrow> (\<And>a n. p' s' = Ok a n \<Longrightarrow> q (drop n s') = q' (drop n s'))
   \<Longrightarrow> then_p p q s = then_p p' q' s'"
  by (auto simp: then_p_def bind_def split: result.splits)

lemma skip_cong [fundef_cong]:
  "s = s' \<Longrightarrow> p s' = p' s' \<Longrightarrow> (\<And>a n. p' s' = Ok a n \<Longrightarrow> q (drop n s') = q' (drop n s'))
   \<Longrightarrow> skip p q s = skip p' q' s'"
  by (auto simp: skip_def bind_def success_def split: result.splits)

lemma many_cong [fundef_cong]:
  "s = s' \<Longrightarrow> (\<And>t. length t \<le> length s' \<Longrightarrow> p t = p' t) \<Longrightarrow> many p s = many p' s'"
proof (induction "length s" arbitrary: s s' rule: less_induct)
  case less
  have eq: "p s = p' s" using less.prems by simp
  have rec: "many p (drop n s) = many p' (drop n s)" if "length (drop n s) < length s" for n
    using less.hyps[OF that refl] less.prems that by simp
  show ?case
    unfolding less.prems(1)[symmetric]
    by (subst many.simps, subst (2) many.simps) (simp add: eq rec split: result.splits)
qed

lemma sep_by_cong [fundef_cong]:
  "s = s' \<Longrightarrow> (\<And>t. length t \<le> length s' \<Longrightarrow> p t = p' t) \<Longrightarrow> sep_by p sep s = sep_by p' sep s'"
  unfolding sep_by_def
  by (intro alt_cong bind_cong map_p_cong many_cong then_p_cong refl) auto



definition advancing :: "'a parser \<Rightarrow> bool" where
  "advancing p \<longleftrightarrow> (\<forall>s a n. p s = Ok a n \<longrightarrow> length (drop n s) < length s)"

lemma advancingD: "advancing p \<Longrightarrow> p s = Ok a n \<Longrightarrow> length (drop n s) < length s"
  by (simp add: advancing_def)

lemma advancing_pstring: "lit \<noteq> [] \<Longrightarrow> advancing (pstring lit)"
proof -
  have "length (drop (length lit) s) < length s" if "lit \<noteq> []" "take (length lit) s = lit" for s
    using that by (cases s; cases lit) auto
  then show "lit \<noteq> [] \<Longrightarrow> advancing (pstring lit)"
    by (auto simp: advancing_def pstring_def split: if_splits)
qed

lemma advancing_bind1: "advancing p \<Longrightarrow> advancing (bind p f)"
  unfolding advancing_def bind_def
  by (fastforce split: result.splits)

lemma advancing_bind2: "(\<And>a. advancing (f a)) \<Longrightarrow> advancing (bind p f)"
proof (unfold advancing_def, intro allI impI)
  fix s b n
  assume f: "\<And>a. \<forall>s b n. f a s = Ok b n \<longrightarrow> length (drop n s) < length s"
    and "bind p f s = Ok b n"
  then obtain a k m where "p s = Ok a k" and fa: "f a (drop k s) = Ok b m" and n: "n = k + m"
    by (auto simp: bind_def split: result.splits)
  from f[of a] fa have "length (drop m (drop k s)) < length (drop k s)" by blast
  then show "length (drop n s) < length s" by (simp add: n)
qed

lemma advancing_alt: "advancing p \<Longrightarrow> advancing q \<Longrightarrow> advancing (alt p q)"
  unfolding advancing_def alt_def by (auto split: result.splits)

lemma advancing_alts: "advancing p \<Longrightarrow> (\<forall>q\<in>set qs. advancing q) \<Longrightarrow> advancing (alts p qs)"
  by (induction qs arbitrary: p) (auto intro: advancing_alt)

lemma advancing_map_p: "advancing p \<Longrightarrow> advancing (map_p g p)"
  unfolding map_p_def by (rule advancing_bind1)

lemma advancing_result_p: "advancing p \<Longrightarrow> advancing (result_p p v)"
  unfolding result_p_def by (rule advancing_bind1)

lemma advancing_then_p1: "advancing p \<Longrightarrow> advancing (then_p p q)"
  unfolding then_p_def by (rule advancing_bind1)

lemma advancing_then_p2: "advancing q \<Longrightarrow> advancing (then_p p q)"
  unfolding then_p_def by (rule advancing_bind2)

lemma advancing_skip1: "advancing p \<Longrightarrow> advancing (skip p q)"
  unfolding skip_def by (rule advancing_bind1)

lemma advancing_lexeme: "advancing p \<Longrightarrow> advancing (lexeme p)"
  unfolding lexeme_def by (intro advancing_skip1 advancing_then_p2)

lemma advancing_token: "lit \<noteq> [] \<Longrightarrow> advancing (lexeme (pstring lit))"
  by (intro advancing_lexeme advancing_pstring)

lemma advancing_lbrackP: "advancing lbrackP"
  unfolding lbrackP_def by (rule advancing_token) simp

section \<open>Values\<close>

text \<open>
  The values of the query language. Python keeps them untagged (\<open>str\<close>, \<open>float\<close>, \<open>int\<close>,
  \<open>list\<close>, \<open>bool\<close>, \<open>None\<close>); the constructor records which alternative of \<open>valueP\<close>
  produced the value.
\<close>

datatype val = VStr ustr | VFloat string | VInt int | VArr "val list" | VBool bool | VNone


function valueP :: "val parser" and array_parser :: "val parser" where
  "valueP s =
     alt (map_p VStr quotedStringP)
    (alt (map_p VFloat floatP)
    (alt (map_p VInt integerP)
    (alt (\<lambda>t. array_parser t)
    (alt (map_p VBool trueP)
    (alt (map_p VBool falseP)
         (result_p nullP VNone)))))) s"
| "array_parser s =
     bind lbrackP (\<lambda>_.
     bind (sep_by (\<lambda>t. valueP t) commaP) (\<lambda>elements.
     bind rbrackP (\<lambda>_.
     success (VArr elements)))) s"
  by pat_completeness auto
termination
  apply (relation "measure (\<lambda>x. case x of Inl s \<Rightarrow> 2 * length s + 1 | Inr s \<Rightarrow> 2 * length s)")
  by (auto dest!: advancingD[OF advancing_lbrackP])

declare valueP.simps [simp del] array_parser.simps [simp del]

section \<open>The query model that the parser builds\<close>

text \<open>
  Modelled from the spec: the data model of section 3. The classes of \<open>core.query.model\<close>
  are not among the sources; the parser and the tests of the model show how they are
  built. The parser builds \<open>Navigation(start, until, edge_type, direction)\<close>,
  \<open>Predicate(name, op, value, {})\<close>, \<open>FunctionTerm(fn, name, args)\<close>, \<open>IsInstanceTerm(kind)\<close>,
  \<open>IdTerm(id)\<close>, \<open>CombinedTerm(left, op, right)\<close>, \<open>Part(term, pinned, navigation)\<close> and
  \<open>Query(parts)\<close>; the tests use \<open>AllTerm\<close>, \<open>IsTerm(kinds)\<close>, \<open>MergeTerm(pre_filter, merges,
  post_filter)\<close> and \<open>MergeQuery(name, query)\<close> in addition, the limit of a part and the
  aggregation of a query. An argument that the parser leaves at its default is written
  out as \<open>None\<close>. The aggregation has its grouping keys and its functions, each over a
  property path.
\<close>

record navigation =
  start :: int
  until :: int
  edge_type :: "ustr option"
  direction :: string

datatype aggregate = Aggregate "string list" "(string \<times> string) list"

datatype qterm =
    AllTerm
  | Predicate string string val "(string \<times> val) list"
  | FunctionTerm string string "val list"
  | IsInstanceTerm ustr
  | IsTerm "string list"
  | IdTerm ustr
  | CombinedTerm qterm string qterm
  | MergeTerm qterm "merge_query list" qterm
and merge_query = MergeQuery string query
and query = Query "part list" "aggregate option"
and part = Part qterm bool "navigation option" "nat option"

section \<open>The term parser\<close>

definition predicate_term :: "qterm parser" where
  "predicate_term =
     bind variableP (\<lambda>name.
     bind operationP (\<lambda>op.
     bind valueP (\<lambda>value.
     success (Predicate name op value []))))"

definition function_term :: "qterm parser" where
  "function_term =
     bind functionP (\<lambda>fn.
     bind lparenP (\<lambda>_.
     bind variableP (\<lambda>name.
     bind (many (then_p commaP valueP)) (\<lambda>args.
     bind rparenP (\<lambda>_.
     success (FunctionTerm fn name args))))))"

definition isinstance_term :: "qterm parser" where
  "isinstance_term = map_p IsInstanceTerm
     (lexeme (skip (then_p (then_p (pstring ''isinstance'') lparenP) quotedStringP) rparenP))"

definition id_term :: "qterm parser" where
  "id_term = map_p IdTerm
     (lexeme (skip (then_p (then_p (pstring ''id'') lparenP) quotedStringP) rparenP))"

definition leafTermP :: "qterm parser" where
  "leafTermP = alt (alt (alt isinstance_term id_term) predicate_term) function_term"

definition boolOpP :: "string parser" where
  "boolOpP = lexeme (alt (pstring ''and'') (pstring ''or''))"

lemma advancing_lparenP: "advancing lparenP"
  unfolding lparenP_def by (rule advancing_token) simp

lemma bool_op_advances:
  assumes "alt (map_p Some boolOpP) (success None) s = Ok (Some op) n"
  shows "length (drop n s) < length s"
proof -
  have "advancing (map_p Some boolOpP)" unfolding boolOpP_def
    by (intro advancing_map_p advancing_lexeme advancing_alt advancing_pstring) simp_all
  moreover have "map_p Some boolOpP s = Ok (Some op) n"
  proof (cases "map_p Some boolOpP s")
    case (Ok a k)
    with assms show ?thesis by (simp add: alt_def)
  next
    case Fail
    with assms show ?thesis by (simp add: alt_def success_def)
  next
    case (Raise e)
    with assms show ?thesis by (simp add: alt_def)
  qed
  ultimately show ?thesis by (rule advancingD)
qed

text \<open>
  \<open>combined_term\<close> is a generator with a \<open>while True\<close> loop; \<open>combined_term_loop\<close> is the
  loop, with \<open>result\<close> as its state.
\<close>

function combined_term :: "qterm parser"
  and combined_term_loop :: "qterm \<Rightarrow> qterm parser"
  and simpleTermP :: "qterm parser" where
  "combined_term s =
     bind (\<lambda>t. simpleTermP t) (\<lambda>left t.
     combined_term_loop left t) s"
| "combined_term_loop result s =
     bind (alt (map_p Some boolOpP) (success None)) (\<lambda>op t.
       case op of
         None \<Rightarrow> success result t
       | Some op \<Rightarrow>
           bind (\<lambda>t. simpleTermP t) (\<lambda>right t.
           combined_term_loop (CombinedTerm result op right) t) t) s"
| "simpleTermP s =
     alt (skip (then_p lparenP (\<lambda>t. combined_term t)) rparenP) leafTermP s"
  by pat_completeness auto
termination
proof (relation "measure (\<lambda>x. case x of
      Inl s \<Rightarrow> 3 * length s + 2
    | Inr (Inl (r, s)) \<Rightarrow> 3 * length s + 1
    | Inr (Inr s) \<Rightarrow> 3 * length s)", goal_cases)
  case (5 result s a n op right m)
  from bool_op_advances[OF 5(1)[unfolded 5(2)]] have "length (drop n s) < length s" .
  then show ?case by simp
next
  case (6 s a n)
  from advancingD[OF advancing_lparenP 6(1)] have "length (drop n s) < length s" .
  then show ?case by simp
qed simp_all

declare combined_term.simps [simp del] combined_term_loop.simps [simp del]
  simpleTermP.simps [simp del]

definition term_parser :: "qterm parser" where
  "term_parser = alt combined_term simpleTermP"


section \<open>Navigation, parts and the query\<close>

text \<open>
  What the parser takes from modules that are not part of the grammar: \<open>Navigation.Max\<close>,
  \<open>EdgeType.default\<close>, \<open>EdgeType.allowed_edge_types\<close> and the text that an f-string prints
  for the latter. The last field is not read by the parser: it holds the paths under
  \<open>ancestors.\<close> that the graph model resolves on every node, so that a query on them needs
  no merge; the test \<open>test_rewrite_ancestors_descendants\<close> has
  \<open>ancestors.cloud.reported.name\<close> as one of them.
\<close>

record env =
  Navigation_Max :: int
  EdgeType_default :: ustr
  EdgeType_allowed_edge_types :: "ustr list"
  EdgeType_allowed_edge_types_str :: ustr
  resolved_ancestors :: "string list"

definition range_parser :: "env \<Rightarrow> (int \<times> int) parser" where
  "range_parser env =
     bind lbrackP (\<lambda>_.
     bind integerP (\<lambda>start.
     bind (optional (alt (alt colonP commaP) dotdotP)) (\<lambda>has_end.
     bind (optional integerP) (\<lambda>maybe_end.
     bind rbrackP (\<lambda>_.
     let end = (case has_end of
                  None \<Rightarrow> start
                | Some _ \<Rightarrow> (case maybe_end of Some e \<Rightarrow> e | None \<Rightarrow> Navigation_Max env))
     in success (start, end))))))"

definition edge_definition :: "env \<Rightarrow> (int \<times> int \<times> string option) parser" where
  "edge_definition env =
     bind (optional literalP) (\<lambda>maybe_edge_type.
     bind (optional (range_parser env)) (\<lambda>maybe_range.
     let parsed_range = (case maybe_range of Some r \<Rightarrow> r | None \<Rightarrow> (1, 1))
     in success (fst parsed_range, snd parsed_range, maybe_edge_type)))"

definition Navigation :: "int \<times> int \<times> string option \<Rightarrow> string \<Rightarrow> navigation" where
  "Navigation nav dir =
     \<lparr>start = fst nav, until = fst (snd nav), edge_type = map_option ustr (snd (snd nav)),
      direction = dir\<rparr>"

definition outP :: "env \<Rightarrow> navigation parser" where
  "outP env = map_p (\<lambda>nav. Navigation nav ''out'')
     (lexeme (skip (then_p (pstring ''-'') (edge_definition env)) (pstring ''->'')))"

definition inP :: "env \<Rightarrow> navigation parser" where
  "inP env = map_p (\<lambda>nav. Navigation nav ''in'')
     (lexeme (skip (then_p (pstring ''<-'') (edge_definition env)) (pstring ''-'')))"

definition inOutP :: "env \<Rightarrow> navigation parser" where
  "inOutP env = map_p (\<lambda>nav. Navigation nav ''inout'')
     (lexeme (skip (then_p (pstring ''-'') (edge_definition env)) (pstring ''-'')))"

definition navigation_parser :: "env \<Rightarrow> navigation parser" where
  "navigation_parser env = alt (alt (outP env) (inP env)) (inOutP env)"

definition pin_parser :: "bool parser" where
  "pin_parser = map_p (\<lambda>x. x \<noteq> None) (optional (lexeme (pstring ''+'')))"

definition part_parser :: "env \<Rightarrow> part parser" where
  "part_parser env =
     bind term_parser (\<lambda>term.
     bind whitespace (\<lambda>_.
     bind (alt (map_p Some (navigation_parser env)) (success None)) (\<lambda>nav.
     bind pin_parser (\<lambda>pinned.
     success (Part term pinned nav None)))))"

definition preamble_value_parser :: "(string \<times> ustr) parser" where
  "preamble_value_parser =
     bind preamblePropP (\<lambda>key.
     bind equalsP (\<lambda>_.
     bind (alt quotedStringP (map_p ustr literalP)) (\<lambda>value.
     success (key, value))))"

text \<open>
  \<open>dict(pairs)\<close>: a key keeps the position of its first occurrence and the value of its
  last one.
\<close>

definition dict :: "('k \<times> 'v) list \<Rightarrow> ('k \<times> 'v) list" where
  "dict pairs = foldl (\<lambda>d (k, v). AList.update k v d) [] pairs"

definition preambleP :: "(string \<times> ustr) list parser" where
  "preambleP = map_p dict (skip (sep_by preamble_value_parser commaP) colonP)"

definition raise :: "exn \<Rightarrow> 'a parser" where
  "raise e s = Raise e"

definition invalid_edge_type :: "env \<Rightarrow> ustr \<Rightarrow> ustr" where
  "invalid_edge_type env given =
     ustr ''Given edge_type '' @ given @ ustr '' is not available. Use one of '' @
     EdgeType_allowed_edge_types_str env"

text \<open>
  The loop over the parts: a navigation whose edge type is \<open>None\<close> or empty gets the edge
  type of the preamble. A \<open>Navigation\<close> object counts as true.
\<close>

fun fill_edge_type :: "ustr \<Rightarrow> part \<Rightarrow> part" where
  "fill_edge_type et (Part term pinned None limit) = Part term pinned None limit"
| "fill_edge_type et (Part term pinned (Some nav) limit) =
     (if edge_type nav = None \<or> edge_type nav = Some []
      then Part term pinned (Some (nav\<lparr>edge_type := Some et\<rparr>)) limit
      else Part term pinned (Some nav) limit)"

definition query_parser :: "env \<Rightarrow> query parser" where
  "query_parser env =
     bind (optional preambleP) (\<lambda>maybe_preamble.
     let preamble = (case maybe_preamble of
                       None \<Rightarrow> dict []
                     | Some d \<Rightarrow> if d \<noteq> [] then d else dict [])
     in
     bind (many (part_parser env)) (\<lambda>parts.
     let edge_type = (case map_of preamble ''edge_type'' of
                        Some v \<Rightarrow> v
                      | None \<Rightarrow> EdgeType_default env)
     in
     if edge_type \<notin> set (EdgeType_allowed_edge_types env)
     then raise (AttributeError (invalid_edge_type env edge_type))
     else success (Query (rev (map (fill_edge_type edge_type) parts)) None)))"

definition parse_query :: "env \<Rightarrow> string \<Rightarrow> exn + query" where
  "parse_query env query = parse (query_parser env) query"

section \<open>Notions used in the statements about the parser\<close>

text \<open>
  \<open>op_chain s steps\<close>: at \<open>s\<close> the text continues with the boolean operators and simple
  terms of \<open>steps\<close>, each with the number of characters it takes, and no operator follows
  the last one. \<open>fold_chain\<close> is the left fold of such a chain.
\<close>

fun op_chain :: "string \<Rightarrow> (string \<times> nat \<times> qterm \<times> nat) list \<Rightarrow> bool" where
  "op_chain s [] = (boolOpP s = Fail)"
| "op_chain s ((op, k, right, m) # rest) =
     (boolOpP s = Ok op k \<and> simpleTermP (drop k s) = Ok right m \<and> op_chain (drop (k + m) s) rest)"

definition fold_chain :: "qterm \<Rightarrow> (string \<times> nat \<times> qterm \<times> nat) list \<Rightarrow> qterm" where
  "fold_chain left steps = foldl (\<lambda>result (op, k, right, m). CombinedTerm result op right) left steps"

definition consumed :: "(string \<times> nat \<times> qterm \<times> nat) list \<Rightarrow> nat" where
  "consumed steps = sum_list (map (\<lambda>(op, k, right, m). k + m) steps)"

fun query_parts :: "query \<Rightarrow> part list" where
  "query_parts (Query parts aggregate) = parts"

text \<open>
  \<open>in_sequence p s steps\<close>: the parser \<open>p\<close> succeeds at \<open>s\<close> with the first value of
  \<open>steps\<close>, then where it stopped with the second one, and so on, and fails after the last.
\<close>

fun in_sequence :: "'a parser \<Rightarrow> string \<Rightarrow> ('a \<times> nat) list \<Rightarrow> bool" where
  "in_sequence p s [] = (p s = Fail)"
| "in_sequence p s ((x, n) # rest) = (p s = Ok x n \<and> 0 < n \<and> in_sequence p (drop n s) rest)"

text \<open>The preamble and the edge type that \<open>query_parser\<close> computes from it.\<close>

definition preamble_of :: "(string \<times> ustr) list option \<Rightarrow> (string \<times> ustr) list" where
  "preamble_of maybe_preamble =
     (case maybe_preamble of None \<Rightarrow> dict [] | Some d \<Rightarrow> if d \<noteq> [] then d else dict [])"

definition edge_type_of :: "env \<Rightarrow> (string \<times> ustr) list \<Rightarrow> ustr" where
  "edge_type_of env preamble =
     (case map_of preamble ''edge_type'' of Some v \<Rightarrow> v | None \<Rightarrow> EdgeType_default env)"

text \<open>
  An environment for the concrete scenarios: the default edge type is \<open>default\<close>, as the
  tests of the model print it, and \<open>ancestors.cloud.reported.name\<close> is resolved, as the test
  \<open>test_rewrite_ancestors_descendants\<close> says.
\<close>

definition env0 :: env where
  "env0 = \<lparr>Navigation_Max = 9223372036854775807, EdgeType_default = ustr ''default'',
     EdgeType_allowed_edge_types = [ustr ''default'', ustr ''delete''],
     EdgeType_allowed_edge_types_str = ustr ''{default, delete}'',
     resolved_ancestors = [''ancestors.cloud.reported.name'']\<rparr>"

text \<open>
  \<open>returns p\<close>: \<open>p\<close> never runs into the loop that does not end.
\<close>

definition returns :: "'a parser \<Rightarrow> bool" where
  "returns p \<longleftrightarrow> (\<forall>s. p s \<noteq> Raise NonTermination)"

section \<open>The term algebra and the rewrites of the query model\<close>

text \<open>
  \<open>core/query/model.py\<close> is not among the sources; its tests are. The operations of the
  model are therefore written from the specification, and where the specification
  leaves a choice, from what the tests \<open>model_test.py\<close> assert.
\<close>

subsection \<open>Simplification\<close>

text \<open>
  Modelled from the spec: the laws that \<open>combine\<close> applies (section 4.3), \<open>Term\<close> being
  missing from the sources. With \<open>and\<close>, \<open>AllTerm\<close> on one side gives the other side; with
  \<open>or\<close>, \<open>AllTerm\<close> on one side gives \<open>AllTerm\<close>; otherwise the \<open>CombinedTerm\<close> is built.
\<close>

definition apply_laws :: "qterm \<Rightarrow> string \<Rightarrow> qterm \<Rightarrow> qterm" where
  "apply_laws left op right =
     (if op = ''and'' then
        (if left = AllTerm then right else if right = AllTerm then left
         else CombinedTerm left op right)
      else if op = ''or'' then
        (if left = AllTerm \<or> right = AllTerm then AllTerm else CombinedTerm left op right)
      else CombinedTerm left op right)"

text \<open>
  Modelled from the spec: \<open>simplify\<close> (sections 3 and 4.3), missing from the sources. The
  children are normalised first; the filters of a \<open>MergeTerm\<close> are terms of the tree and
  are normalised as well.
\<close>

fun simplify :: "qterm \<Rightarrow> qterm" where
  "simplify (CombinedTerm left op right) = apply_laws (simplify left) op (simplify right)"
| "simplify (MergeTerm pre_filter merges post_filter) =
     MergeTerm (simplify pre_filter) merges (simplify post_filter)"
| "simplify t = t"

text \<open>
  Modelled from the spec: \<open>combine(left, op, right)\<close> of section 4.3, missing from the
  sources; it is what the operators \<open>&\<close> and \<open>|\<close> of the tests build.
\<close>

definition combine :: "qterm \<Rightarrow> string \<Rightarrow> qterm \<Rightarrow> qterm" where
  "combine left op right = apply_laws (simplify left) op (simplify right)"

text \<open>A term in which no \<open>and\<close> and no \<open>or\<close> has \<open>AllTerm\<close> as an operand, at any depth.\<close>

fun simplified :: "qterm \<Rightarrow> bool" where
  "simplified (CombinedTerm left op right) =
     (simplified left \<and> simplified right
      \<and> \<not> (op \<in> {''and'', ''or''} \<and> (left = AllTerm \<or> right = AllTerm)))"
| "simplified (MergeTerm pre_filter merges post_filter) =
     (simplified pre_filter \<and> simplified post_filter)"
| "simplified t = True"

subsection \<open>Merge queries for ancestors and descendants\<close>

text \<open>
  Modelled from the spec: the error kinds of section 7 that the model raises.
  \<open>IndexError\<close> is what Python raises for the current part of a query without parts.
\<close>

datatype model_error = InvalidMergePath | IncompatibleQuery | IndexError

text \<open>\<open>str.split\<close> with a separator of one character.\<close>

fun split_on :: "char \<Rightarrow> string \<Rightarrow> string list" where
  "split_on c [] = [[]]"
| "split_on c (x # xs) =
     (if x = c then [] # split_on c xs
      else (case split_on c xs of w # ws \<Rightarrow> (x # w) # ws | [] \<Rightarrow> [[x]]))"

definition segments :: "string \<Rightarrow> string list" where
  "segments path = split_on CHR ''.'' path"

text \<open>
  Modelled from the spec: the paths \<open>ancestors.<kind>.<rest>\<close> and
  \<open>descendants.<kind>.<rest>\<close> of section 4.6, with at least three segments; the code that
  recognises them is missing from the sources. The result is the namespace and the kind.
\<close>

definition namespace_kind :: "string \<Rightarrow> (string \<times> string) option" where
  "namespace_kind path =
     (case segments path of
        ns # kind # prop # rest \<Rightarrow>
          if ns \<in> {''ancestors'', ''descendants''} then Some (ns, kind) else None
      | _ \<Rightarrow> None)"

text \<open>
  Modelled from the spec: the paths that call for a merge (section 4.6), with what the
  test \<open>test_rewrite_ancestors_descendants\<close> adds: a query on a resolved ancestor path is
  not changed, so a resolved path is not one of them. The code is missing from the
  sources.
\<close>

definition is_ancestor_descendant :: "env \<Rightarrow> string \<Rightarrow> bool" where
  "is_ancestor_descendant env path =
     (namespace_kind path \<noteq> None \<and> path \<notin> set (resolved_ancestors env))"

fun mq_name :: "merge_query \<Rightarrow> string" where
  "mq_name (MergeQuery name query) = name"

text \<open>
  Modelled from the spec: the merge query that \<open>merge_queries_for\<close> synthesises (section
  4.6), missing from the sources: the name \<open>ancestors.<kind>\<close> or \<open>descendants.<kind>\<close>, and
  the query \<open>Query([Part(IsTerm([kind])), Part(AllTerm(), navigation)])\<close> of the test
  \<open>test_merge_query_creation\<close>, with a navigation from 1 to \<open>Navigation.Max\<close> over the
  default edge type, inbound for ancestors and outbound for descendants.
\<close>

definition merge_query_for :: "env \<Rightarrow> string \<times> string \<Rightarrow> merge_query" where
  "merge_query_for env nk =
     MergeQuery (fst nk @ ''.'' @ snd nk)
       (Query [Part (IsTerm [snd nk]) False None None,
               Part AllTerm False
                 (Some \<lparr>start = 1, until = Navigation_Max env,
                        edge_type = Some (EdgeType_default env),
                        direction = (if fst nk = ''ancestors'' then ''in'' else ''out'')\<rparr>)
                 None]
          None)"

text \<open>
  Modelled from the spec: one merge query for each distinct kind, in the order of the
  first reference, and none for a name that an existing merge query has (section 4.6);
  the loop is missing from the sources.
\<close>

fun create_merges ::
  "env \<Rightarrow> string list \<Rightarrow> merge_query list \<Rightarrow> (string \<times> string) list \<Rightarrow> merge_query list" where
  "create_merges env existing created [] = created"
| "create_merges env existing created (nk # nks) =
     (if mq_name (merge_query_for env nk) \<in> set existing
         \<or> mq_name (merge_query_for env nk) \<in> set (map mq_name created)
      then create_merges env existing created nks
      else create_merges env existing (created @ [merge_query_for env nk]) nks)"

fun existing_merges :: "qterm \<Rightarrow> merge_query list" where
  "existing_merges (MergeTerm pre_filter merges post_filter) = merges"
| "existing_merges t = []"

fun part_term :: "part \<Rightarrow> qterm" where
  "part_term (Part term pinned navigation limit) = term"

text \<open>
  Modelled from the spec: the merge set of a part for a list of paths (section 4.6),
  missing from the sources. The created merge queries come before the existing ones:
  the tests \<open>test_rewrite_ancestors_descendants\<close> and \<open>test_merge_query_creation\<close> print
  \<open>{ancestors.cloud: ..., children[]: ...}\<close> for an existing \<open>children[]\<close> and
  \<open>{ancestors.kind: ..., ancestors.cloud: ...}\<close> for an existing \<open>ancestors.cloud\<close>.
\<close>

definition merges_for :: "env \<Rightarrow> part \<Rightarrow> string list \<Rightarrow> merge_query list" where
  "merges_for env part paths =
     create_merges env (map mq_name (existing_merges (part_term part))) []
       (List.map_filter namespace_kind paths)
     @ existing_merges (part_term part)"

text \<open>
  Modelled from the spec: \<open>Part.merge_queries_for\<close> (section 4.6), missing from the sources.
  It fails when a path is not under \<open>ancestors.\<close> or \<open>descendants.\<close> or has fewer than
  three segments.
\<close>

definition merge_queries_for :: "env \<Rightarrow> part \<Rightarrow> string list \<Rightarrow> model_error + merge_query list" where
  "merge_queries_for env part paths =
     (if list_all (\<lambda>path. namespace_kind path \<noteq> None) paths
      then Inr (merges_for env part paths)
      else Inl InvalidMergePath)"

subsection \<open>The split into pre-filter and post-filter\<close>

text \<open>
  Modelled from the spec: the property paths of a term (the fold over property paths of
  section 3), missing from the sources.
\<close>

fun term_paths :: "qterm \<Rightarrow> string list" where
  "term_paths (Predicate name op v args) = [name]"
| "term_paths (FunctionTerm fn name args) = [name]"
| "term_paths (CombinedTerm left op right) = term_paths left @ term_paths right"
| "term_paths (MergeTerm pre_filter merges post_filter) =
     term_paths pre_filter @ term_paths post_filter"
| "term_paths t = []"

definition mentions_ad :: "env \<Rightarrow> qterm \<Rightarrow> bool" where
  "mentions_ad env t = list_ex (is_ancestor_descendant env) (term_paths t)"

text \<open>
  Modelled from the spec: the conjuncts of the top-level conjunction of a filter term
  (section 4.6); the code that walks the term is missing from the sources. The tests
  lift \<open>(a < 1 and b > 1)\<close> out of \<open>(a<1 and b>1) and (c<d or /ancestors.d.c<1)\<close> and keep
  the disjunction whole.
\<close>

fun conjuncts :: "qterm \<Rightarrow> qterm list" where
  "conjuncts (CombinedTerm left op right) =
     (if op = ''and'' then conjuncts left @ conjuncts right else [CombinedTerm left op right])"
| "conjuncts t = [t]"

text \<open>
  Modelled from the spec: terms conjoined with \<open>and\<close> (section 4.6), \<open>AllTerm\<close> when there
  is none; missing from the sources.
\<close>

fun conjoin :: "qterm list \<Rightarrow> qterm" where
  "conjoin [] = AllTerm"
| "conjoin (t # ts) = foldl (\<lambda>left right. CombinedTerm left ''and'' right) t ts"

text \<open>
  Modelled from the spec: the split of the filter term (section 4.6), missing from the
  sources. Of a conjunction, the conjuncts without an ancestor or descendant path are
  lifted into the pre-filter and the others stay in the post-filter. A term with another
  top-level connective goes to the post-filter as a whole. A term that is not combined
  is a single conjunct.
\<close>

fun split_filter :: "env \<Rightarrow> qterm \<Rightarrow> qterm \<times> qterm" where
  "split_filter env (CombinedTerm left op right) =
     (if op = ''and''
      then (conjoin (filter (\<lambda>c. \<not> mentions_ad env c) (conjuncts (CombinedTerm left op right))),
            conjoin (filter (mentions_ad env) (conjuncts (CombinedTerm left op right))))
      else (AllTerm, CombinedTerm left op right))"
| "split_filter env t = (if mentions_ad env t then (AllTerm, t) else (t, AllTerm))"

text \<open>
  Modelled from the spec: conjunction with \<open>AllTerm\<close> as the identity (section 4.3), used
  to join an existing pre-filter with the lifted conjuncts; missing from the sources.
\<close>

definition and_term :: "qterm \<Rightarrow> qterm \<Rightarrow> qterm" where
  "and_term left right =
     (if left = AllTerm then right else if right = AllTerm then left
      else CombinedTerm left ''and'' right)"

text \<open>
  The pre-filter and the filter term of a part: those of an explicit merge clause, or
  the term itself.
\<close>

fun filters :: "qterm \<Rightarrow> qterm \<times> qterm" where
  "filters (MergeTerm pre_filter merges post_filter) = (pre_filter, post_filter)"
| "filters t = (AllTerm, t)"

text \<open>
  Modelled from the spec: \<open>Part.rewrite_for_ancestors_descendants\<close> (section 4.6), missing
  from the sources. The paths are those of the term and the additional ones, the latter
  only as far as they are ancestor or descendant paths (the test passes \<open>test\<close> and \<open>a\<close>
  among them). Without such a path the part is unchanged, as the test has it for a
  resolved ancestor; otherwise its term becomes \<open>MergeTerm(pre_filter, merges, post_filter)\<close>.
  The filter that is split is the term of the part or, when the part has an explicit
  merge clause, the post-filter of that clause, whose pre-filter stays in front of the
  lifted conjuncts.
\<close>

fun rewrite_part :: "env \<Rightarrow> string list \<Rightarrow> part \<Rightarrow> part" where
  "rewrite_part env additional (Part term pinned navigation limit) =
     (let paths = filter (is_ancestor_descendant env) (term_paths term @ additional)
      in if paths = [] then Part term pinned navigation limit
         else
           (let merges = merges_for env (Part term pinned navigation limit) paths;
                (pre, filter_term) = filters term;
                (lifted, post_filter) = split_filter env filter_term
            in Part (MergeTerm (and_term pre lifted) merges post_filter) pinned navigation limit))"

text \<open>
  Modelled from the spec: \<open>Query.rewrite_for_ancestors_descendants\<close> (section 4.6), missing
  from the sources; it rewrites the current part, which is the first of the list.
\<close>

fun rewrite_for_ancestors_descendants :: "env \<Rightarrow> string list \<Rightarrow> query \<Rightarrow> query" where
  "rewrite_for_ancestors_descendants env additional (Query [] aggregate) = Query [] aggregate"
| "rewrite_for_ancestors_descendants env additional (Query (current # parts) aggregate) =
     Query (rewrite_part env additional current # parts) aggregate"

text \<open>
  Modelled from the spec: the query of \<open>merge_with(name, NavigateUntilRoot, IsTerm([kind]))\<close>,
  which the tests print as \<open>all <-default[1:]- is("kind")\<close>; \<open>merge_with\<close> and
  \<open>NavigateUntilRoot\<close> are missing from the sources.
\<close>

definition until_root :: "env \<Rightarrow> string \<Rightarrow> query" where
  "until_root env kind =
     Query [Part (IsTerm [kind]) False None None,
            Part AllTerm False
              (Some \<lparr>start = 1, until = Navigation_Max env,
                     edge_type = Some (EdgeType_default env), direction = ''in''\<rparr>)
              None]
       None"

text \<open>
  The current part of \<open>Query.by("test").merge_with("ancestors.cloud", NavigateUntilRoot,
  IsTerm(["cloud"]))\<close>.
\<close>

definition cloud_scenario :: part where
  "cloud_scenario =
     Part (MergeTerm (IsTerm [''test''])
             [MergeQuery ''ancestors.cloud'' (until_root env0 ''cloud'')] AllTerm)
       False None None"

text \<open>The filter of the test \<open>ancestors.d.c<1 and (a<1 or b>1) and /ancestors.a.b>1\<close>.\<close>

definition special_example :: qterm where
  "special_example =
     CombinedTerm
       (CombinedTerm (Predicate ''ancestors.d.c'' ''<'' (VInt 1) []) ''and''
          (CombinedTerm (Predicate ''a'' ''<'' (VInt 1) []) ''or''
             (Predicate ''b'' ''>'' (VInt 1) [])))
       ''and'' (Predicate ''/ancestors.a.b'' ''>'' (VInt 1) [])"

subsection \<open>Sections\<close>

text \<open>
  Modelled from the spec: \<open>PathRoot\<close>, the marker of the root section and of a meta-rooted
  path (section 4.5); the tests write it \<open>/\<close>. It is missing from the sources.
\<close>

definition PathRoot :: string where
  "PathRoot = ''/''"

text \<open>
  Modelled from the spec: a meta-rooted path carries the marker in front (section 4.5).
\<close>

definition meta_rooted :: "string \<Rightarrow> bool" where
  "meta_rooted name = (take 1 name = PathRoot)"

text \<open>
  Modelled from the spec: the forward rewrite of one path (section 4.5), missing from the
  sources: a meta-rooted path loses its marker, any other path gets the section name and
  a dot in front. At the root section there is no name to put in front: the test
  \<open>test_rewrite_ancestors_descendants\<close> calls \<open>on_section()\<close> at the root and prints \<open>a < 1\<close>
  for \<open>a<1\<close> and \<open>ancestors.a.b > 1\<close> for \<open>/ancestors.a.b>1\<close>.
\<close>

definition variable_to_absolute :: "string \<Rightarrow> string \<Rightarrow> string" where
  "variable_to_absolute section name =
     (if meta_rooted name then drop 1 name
      else if section = PathRoot then name
      else section @ ''.'' @ name)"

text \<open>
  Modelled from the spec: the backward rewrite of one path (section 4.5), missing from the
  sources: a path that begins with the section name and a dot loses them, any other path
  gets the marker of the root back. At the root section every path stays as it is.
\<close>

definition variable_to_relative :: "string \<Rightarrow> string \<Rightarrow> string" where
  "variable_to_relative section name =
     (if section = PathRoot then name
      else if take (length section + 1) name = section @ ''.''
      then drop (length section + 1) name
      else PathRoot @ name)"

text \<open>
  Modelled from the spec: the aggregation clause holds grouping keys and aggregate
  functions over property paths (section 3); its paths are rewritten like those of the
  terms, as the test \<open>test_on_section\<close> shows. The class is missing from the sources.
\<close>

fun map_aggregate :: "(string \<Rightarrow> string) \<Rightarrow> aggregate \<Rightarrow> aggregate" where
  "map_aggregate f (Aggregate group_by group_func) =
     Aggregate (map f group_by) (map (\<lambda>(fn, name). (fn, f name)) group_func)"

fun aggregate_paths :: "aggregate \<Rightarrow> string list" where
  "aggregate_paths (Aggregate group_by group_func) = group_by @ map snd group_func"

text \<open>
  Modelled from the spec: the rewrite of every path in every term (section 4.5), missing
  from the sources; it reaches the filters and the queries of a merge term and every
  part of a query.
\<close>

fun change_variable :: "(string \<Rightarrow> string) \<Rightarrow> qterm \<Rightarrow> qterm"
  and change_variable_merge :: "(string \<Rightarrow> string) \<Rightarrow> merge_query \<Rightarrow> merge_query"
  and change_variable_query :: "(string \<Rightarrow> string) \<Rightarrow> query \<Rightarrow> query"
  and change_variable_part :: "(string \<Rightarrow> string) \<Rightarrow> part \<Rightarrow> part" where
  "change_variable f AllTerm = AllTerm"
| "change_variable f (Predicate name op v args) = Predicate (f name) op v args"
| "change_variable f (FunctionTerm fn name args) = FunctionTerm fn (f name) args"
| "change_variable f (IsInstanceTerm kind) = IsInstanceTerm kind"
| "change_variable f (IsTerm kinds) = IsTerm kinds"
| "change_variable f (IdTerm i) = IdTerm i"
| "change_variable f (CombinedTerm left op right) =
     CombinedTerm (change_variable f left) op (change_variable f right)"
| "change_variable f (MergeTerm pre_filter merges post_filter) =
     MergeTerm (change_variable f pre_filter) (map (change_variable_merge f) merges)
       (change_variable f post_filter)"
| "change_variable_merge f (MergeQuery name query) = MergeQuery name (change_variable_query f query)"
| "change_variable_query f (Query parts aggregate) =
     Query (map (change_variable_part f) parts) (map_option (map_aggregate f) aggregate)"
| "change_variable_part f (Part term pinned navigation limit) =
     Part (change_variable f term) pinned navigation limit"

fun query_aggregate :: "query \<Rightarrow> aggregate option" where
  "query_aggregate (Query parts aggregate) = aggregate"

text \<open>
  The paths of the aggregation are the additional paths of the automatic rewrite: the
  test rewrites \<open>aggregate(/ancestors.a.reported.name as a: sum(1)): is(volume)\<close> into a
  merge term.
\<close>

definition additional_paths :: "query \<Rightarrow> string list" where
  "additional_paths q = (case query_aggregate q of None \<Rightarrow> [] | Some a \<Rightarrow> aggregate_paths a)"

text \<open>
  Modelled from the spec: \<open>Query.on_section\<close> (sections 4.5 and 4.6), missing from the
  sources. It rewrites the paths and then applies the rewrite for ancestors and
  descendants, at the root section as well: the test \<open>test_rewrite_ancestors_descendants\<close>
  calls \<open>on_section()\<close> at the root and gets the markers stripped and a merge term.
\<close>

definition on_section :: "env \<Rightarrow> string \<Rightarrow> query \<Rightarrow> query" where
  "on_section env section q =
     (let absolute = change_variable_query (variable_to_absolute section) q
      in rewrite_for_ancestors_descendants env (additional_paths absolute) absolute)"

text \<open>
  Modelled from the spec: \<open>Query.relative_to_section\<close> (section 4.5), missing from the
  sources: the backward rewrite of every path of the query.
\<close>

definition relative_to_section :: "string \<Rightarrow> query \<Rightarrow> query" where
  "relative_to_section section q = change_variable_query (variable_to_relative section) q"

text \<open>Every path of a term and of a query, the merge queries included.\<close>

fun all_paths :: "qterm \<Rightarrow> string list"
  and all_paths_merge :: "merge_query \<Rightarrow> string list"
  and all_paths_query :: "query \<Rightarrow> string list"
  and all_paths_part :: "part \<Rightarrow> string list" where
  "all_paths AllTerm = []"
| "all_paths (Predicate name op v args) = [name]"
| "all_paths (FunctionTerm fn name args) = [name]"
| "all_paths (IsInstanceTerm kind) = []"
| "all_paths (IsTerm kinds) = []"
| "all_paths (IdTerm i) = []"
| "all_paths (CombinedTerm left op right) = all_paths left @ all_paths right"
| "all_paths (MergeTerm pre_filter merges post_filter) =
     all_paths pre_filter @ concat (map all_paths_merge merges) @ all_paths post_filter"
| "all_paths_merge (MergeQuery name query) = all_paths_query query"
| "all_paths_query (Query parts aggregate) =
     concat (map all_paths_part parts)
     @ (case aggregate of None \<Rightarrow> [] | Some a \<Rightarrow> aggregate_paths a)"
| "all_paths_part (Part term pinned navigation limit) = all_paths term"

text \<open>
  The paths that the backward rewrite does not give back: under a section, a meta-rooted
  path that continues with the section name and a dot, which the forward rewrite maps to
  the path that it also gives for a path of the section; at the root section, every
  meta-rooted path, since the marker is stripped and nothing tells it from a plain path.
\<close>

definition clashes :: "string \<Rightarrow> string \<Rightarrow> bool" where
  "clashes section name =
     (meta_rooted name
      \<and> (section = PathRoot \<or> take (length section + 1) (drop 1 name) = section @ ''.''))"

text \<open>
  The current part of the query or its aggregation has a path that calls for a merge, so
  that \<open>on_section\<close> makes a merge term of the current part.
\<close>

fun rewrite_applies :: "env \<Rightarrow> query \<Rightarrow> bool" where
  "rewrite_applies env (Query [] aggregate) = False"
| "rewrite_applies env (Query (current # parts) aggregate) =
     list_ex (is_ancestor_descendant env)
       (term_paths (part_term current) @ additional_paths (Query (current # parts) aggregate))"

definition clash_query :: query where
  "clash_query = Query [Part (Predicate ''/r.x'' ''=='' (VInt 1) []) False None None] None"

definition marker_query :: query where
  "marker_query = Query [Part (Predicate ''/ancestors.d.c'' ''<'' (VInt 1) []) False None None] None"

subsection \<open>Combining queries\<close>

fun part_navigation :: "part \<Rightarrow> navigation option" where
  "part_navigation (Part term pinned navigation limit) = navigation"

fun part_pinned :: "part \<Rightarrow> bool" where
  "part_pinned (Part term pinned navigation limit) = pinned"

fun part_limit :: "part \<Rightarrow> nat option" where
  "part_limit (Part term pinned navigation limit) = limit"

fun is_merge :: "qterm \<Rightarrow> bool" where
  "is_merge (MergeTerm pre_filter merges post_filter) = True"
| "is_merge t = False"

text \<open>
  Modelled from the spec: the limit of a combined part (section 4.7), missing from the
  sources: the minimum when both limits are set, else the one that is set.
\<close>

definition combine_limit :: "nat option \<Rightarrow> nat option \<Rightarrow> nat option" where
  "combine_limit left right =
     (case left of
        None \<Rightarrow> right
      | Some l \<Rightarrow> (case right of None \<Rightarrow> Some l | Some r \<Rightarrow> Some (min l r)))"

text \<open>
  Modelled from the spec: the current part of a query (section 4.7) is the part written
  last, which the parser puts first; a query without parts has none. \<open>Query.current_part\<close>
  is missing from the sources.
\<close>

fun current_part :: "query \<Rightarrow> part option" where
  "current_part (Query [] aggregate) = None"
| "current_part (Query (current # parts) aggregate) = Some current"

text \<open>
  Modelled from the spec: \<open>Query.combine\<close> (section 4.7), missing from the sources. It
  fails when both queries have an aggregation. When the current part of the first query
  has a navigation, the second query continues behind that navigation and no part is
  joined: the test \<open>test_combine\<close> prints
  \<open>test == true -default-> is("foo") -default-> is("bla") -default->\<close> for such queries.
  Otherwise the current parts of the two queries are joined with \<open>and\<close>, which fails when
  both carry a merge clause; the joined part is the current part of the result, with the
  navigation of the second query's part, and the earlier parts of both queries stay. The
  spec does not say where the earlier parts of the second query go; they follow the
  joined part, ahead of the earlier parts of the first query.
\<close>

definition Query_combine :: "query \<Rightarrow> query \<Rightarrow> model_error + query" where
  "Query_combine a b =
     (if query_aggregate a \<noteq> None \<and> query_aggregate b \<noteq> None then Inl IncompatibleQuery
      else
        (case (current_part a, current_part b) of
           (Some left, Some right) \<Rightarrow>
             (let aggregate =
                    (case query_aggregate a of None \<Rightarrow> query_aggregate b | Some g \<Rightarrow> Some g)
              in if part_navigation left \<noteq> None
                 then Inr (Query (query_parts b @ query_parts a) aggregate)
                 else if is_merge (part_term left) \<and> is_merge (part_term right)
                 then Inl IncompatibleQuery
                 else Inr (Query
                        (Part (combine (part_term left) ''and'' (part_term right))
                           (part_pinned left) (part_navigation right)
                           (combine_limit (part_limit left) (part_limit right))
                         # tl (query_parts b) @ tl (query_parts a))
                        aggregate))
         | _ \<Rightarrow> Inl IndexError))"

subsection \<open>Terms and queries of the tests\<close>

text \<open>
  The predicates \<open>name < 1\<close>, \<open>name > 1\<close> and \<open>name == "value"\<close>, the query \<open>Query.by(kind)\<close>,
  the navigation \<open>-default->\<close>, and the query of \<open>test_on_section\<close> without its \<open>with\<close> and
  \<open>sort\<close> clauses, which the model of the data leaves out.
\<close>

definition lt :: "string \<Rightarrow> qterm" where
  "lt name = Predicate name ''<'' (VInt 1) []"

definition gt :: "string \<Rightarrow> qterm" where
  "gt name = Predicate name ''>'' (VInt 1) []"

definition eqs :: "string \<Rightarrow> string \<Rightarrow> qterm" where
  "eqs name v = Predicate name ''=='' (VStr (ustr v)) []"

definition by_kind :: "string \<Rightarrow> query" where
  "by_kind kind = Query [Part (IsTerm [kind]) False None None] None"

definition out1 :: navigation where
  "out1 = \<lparr>start = 1, until = 1, edge_type = Some (ustr ''default''), direction = ''out''\<rparr>"

definition test_true :: qterm where
  "test_true = Predicate ''test'' ''=='' (VBool True) []"

definition section_query :: query where
  "section_query =
     Query [Part (CombinedTerm (lt ''a'') ''and'' (Predicate ''/metadata.b'' ''=='' (VInt 23) []))
              False None None,
            Part (CombinedTerm (Predicate ''cpu'' ''>'' (VInt 4) []) ''and''
                    (CombinedTerm (Predicate ''mem'' ''<'' (VInt 23) []) ''or''
                       (Predicate ''mem'' ''<'' (VInt 59) [])))
              False (Some out1) None]
       (Some (Aggregate [''foo'', ''bla'', ''bar''] [(''sum'', ''a''), (''sum'', ''b'')]))"


section \<open>The parser returns\<close>

text \<open>
  Every parser that the grammar repeats with \<open>many\<close> moves the index when it succeeds, so
  the loop of \<open>Parser.times\<close> ends on every text: \<open>parse_query\<close> yields a query or raises
  \<open>ParseError\<close>, \<open>ValueError\<close> or \<open>AttributeError\<close>.
\<close>

lemma returnsD: "returns p \<Longrightarrow> p s \<noteq> Raise NonTermination"
  by (simp add: returns_def)

lemma advancing_map_raising: "advancing p \<Longrightarrow> advancing (map_raising g p)"
  unfolding map_raising_def by (rule advancing_bind1)

lemma advancing_digit: "advancing digit"
  by (auto simp: advancing_def digit_def split: list.splits if_splits)

lemma advancing_regex_word: "advancing (regex_word rest)"
  by (auto simp: advancing_def regex_word_def split: list.splits if_splits)

lemma advancing_string_part: "advancing string_part"
proof -
  have "length (drop (length (takeWhile P s)) s) < length s" if "takeWhile P s \<noteq> []" for P s
    using that by (cases s) auto
  then show ?thesis
    by (auto simp: advancing_def string_part_def Let_def split: if_splits)
qed

lemma advancing_string_esc: "advancing string_esc"
  unfolding string_esc_def by (intro advancing_then_p1 advancing_pstring) simp

lemma returns_success: "returns (success v)"
  by (simp add: returns_def success_def)

lemma returns_pstring: "returns (pstring lit)"
  by (simp add: returns_def pstring_def)

lemma returns_whitespace: "returns whitespace"
  by (simp add: returns_def whitespace_def)

lemma no_hang_bind:
  "p s \<noteq> Raise NonTermination
   \<Longrightarrow> (\<And>a n. p s = Ok a n \<Longrightarrow> f a (drop n s) \<noteq> Raise NonTermination)
   \<Longrightarrow> bind p f s \<noteq> Raise NonTermination"
  by (auto simp: bind_def split: result.splits)

lemma no_hang_alt:
  "p s \<noteq> Raise NonTermination \<Longrightarrow> q s \<noteq> Raise NonTermination
   \<Longrightarrow> alt p q s \<noteq> Raise NonTermination"
  by (auto simp: alt_def split: result.splits)

lemma returns_bind: "returns p \<Longrightarrow> (\<And>a. returns (f a)) \<Longrightarrow> returns (bind p f)"
  unfolding returns_def by (intro allI no_hang_bind) auto

lemma returns_alt: "returns p \<Longrightarrow> returns q \<Longrightarrow> returns (alt p q)"
  unfolding returns_def by (intro allI no_hang_alt) auto

lemma returns_alts: "returns p \<Longrightarrow> (\<forall>q\<in>set qs. returns q) \<Longrightarrow> returns (alts p qs)"
  by (induction qs arbitrary: p) (auto intro: returns_alt)

lemma returns_map_p: "returns p \<Longrightarrow> returns (map_p g p)"
  unfolding map_p_def by (intro returns_bind returns_success)

lemma returns_result_p: "returns p \<Longrightarrow> returns (result_p p v)"
  unfolding result_p_def by (intro returns_bind returns_success)

lemma returns_then_p: "returns p \<Longrightarrow> returns q \<Longrightarrow> returns (then_p p q)"
  unfolding then_p_def by (intro returns_bind)

lemma returns_skip: "returns p \<Longrightarrow> returns q \<Longrightarrow> returns (skip p q)"
  unfolding skip_def by (intro returns_bind returns_success)

lemma returns_lexeme: "returns p \<Longrightarrow> returns (lexeme p)"
  unfolding lexeme_def by (intro returns_skip returns_then_p returns_whitespace)

lemma returns_token: "returns (lexeme (pstring lit))"
  by (intro returns_lexeme returns_pstring)

lemma returns_optional: "returns p \<Longrightarrow> returns (optional p)"
  unfolding optional_def by (intro returns_alt returns_map_p returns_success)

lemma returns_concat_p: "returns p \<Longrightarrow> returns (concat_p p)"
  unfolding concat_p_def by (rule returns_map_p)

lemma returns_plus_p: "returns p \<Longrightarrow> returns q \<Longrightarrow> returns (plus_p p q)"
  unfolding plus_p_def by (intro returns_bind returns_map_p)

lemma returns_map_raising:
  "returns p \<Longrightarrow> (\<And>a. g a \<noteq> Inl NonTermination) \<Longrightarrow> returns (map_raising g p)"
  unfolding map_raising_def returns_def
  by (intro allI no_hang_bind) (auto split: sum.splits)

lemma no_hang_many:
  assumes "advancing p" and "\<And>t. length t \<le> length s \<Longrightarrow> p t \<noteq> Raise NonTermination"
  shows "many p s \<noteq> Raise NonTermination"
  using assms(2)
proof (induction "length s" arbitrary: s rule: less_induct)
  case less
  show ?case
  proof (cases "p s")
    case (Ok a n)
    from advancingD[OF assms(1) Ok] have lt: "length (drop n s) < length s" .
    have "many p (drop n s) \<noteq> Raise NonTermination"
    proof (rule less.hyps[OF lt])
      fix t :: string assume "length t \<le> length (drop n s)"
      with lt have "length t \<le> length s" by simp
      then show "p t \<noteq> Raise NonTermination" by (rule less.prems)
    qed
    then show ?thesis using Ok lt
      by (subst many.simps) (auto split: result.splits)
  next
    case Fail
    then show ?thesis by (subst many.simps) simp
  next
    case (Raise e)
    with less.prems[of s] show ?thesis by (subst many.simps) simp
  qed
qed

lemma returns_many: "advancing p \<Longrightarrow> returns p \<Longrightarrow> returns (many p)"
  unfolding returns_def by (intro allI no_hang_many) auto

lemma returns_at_least1: "advancing p \<Longrightarrow> returns p \<Longrightarrow> returns (at_least1 p)"
  unfolding at_least1_def by (intro returns_bind returns_map_p returns_many)

lemma no_hang_sep_by:
  assumes "advancing sep" and "returns sep"
    and p: "\<And>t. length t \<le> length s \<Longrightarrow> p t \<noteq> Raise NonTermination"
  shows "sep_by p sep s \<noteq> Raise NonTermination"
proof -
  have tail: "many (then_p sep p) (drop n s) \<noteq> Raise NonTermination" for n
  proof (rule no_hang_many[OF advancing_then_p1[OF assms(1)]])
    fix t :: string assume t: "length t \<le> length (drop n s)"
    show "then_p sep p t \<noteq> Raise NonTermination"
      unfolding then_p_def
    proof (rule no_hang_bind[OF returnsD[OF assms(2)]])
      fix a k assume "sep t = Ok a k"
      from t have "length (drop k t) \<le> length s" by simp
      then show "p (drop k t) \<noteq> Raise NonTermination" by (rule p)
    qed
  qed
  have "bind p (\<lambda>a. map_p ((#) a) (many (then_p sep p))) s \<noteq> Raise NonTermination"
  proof (rule no_hang_bind)
    show "p s \<noteq> Raise NonTermination" by (rule p) simp
  next
    fix a n
    show "map_p ((#) a) (many (then_p sep p)) (drop n s) \<noteq> Raise NonTermination"
      unfolding map_p_def
      by (rule no_hang_bind) (simp_all add: tail success_def)
  qed
  then show ?thesis
    unfolding sep_by_def by (rule no_hang_alt) (simp add: success_def)
qed

lemma returns_sep_by: "advancing sep \<Longrightarrow> returns sep \<Longrightarrow> returns p \<Longrightarrow> returns (sep_by p sep)"
  unfolding returns_def by (intro allI no_hang_sep_by) (auto simp: returns_def)


lemma returns_digit: "returns digit"
  by (auto simp: returns_def digit_def split: list.splits)

lemma returns_integerP: "returns integerP"
  unfolding integerP_def
  by (intro returns_map_raising returns_concat_p returns_at_least1 advancing_digit returns_digit)
     (simp add: py_int_def)

lemma returns_floatP: "returns floatP"
  unfolding floatP_def
  by (intro returns_map_raising returns_concat_p returns_plus_p returns_many returns_result_p
      advancing_digit returns_digit returns_pstring)
     (simp add: py_float_def Let_def)

lemma returns_regex_word: "returns (regex_word rest)"
  by (auto simp: returns_def regex_word_def split: list.splits)

lemma returns_variableP: "returns variableP"
  unfolding variableP_def by (intro returns_lexeme returns_regex_word)

lemma returns_literalP: "returns literalP"
  unfolding literalP_def by (intro returns_lexeme returns_regex_word)

lemma advancing_variableP: "advancing variableP"
  unfolding variableP_def by (intro advancing_lexeme advancing_regex_word)

lemma returns_string_part: "returns string_part"
  by (simp add: returns_def string_part_def Let_def)

lemma returns_unicode_esc: "returns unicode_esc"
  by (simp add: returns_def unicode_esc_def)

lemma returns_string_esc: "returns string_esc"
  unfolding string_esc_def
  by (intro returns_then_p returns_alts returns_map_p returns_pstring)
     (auto intro: returns_map_p returns_result_p returns_pstring returns_unicode_esc)

lemma returns_quotedStringP: "returns quotedStringP"
  unfolding quotedStringP_def stringP_def
  by (intro returns_lexeme returns_skip returns_then_p returns_pstring returns_concat_p
      returns_many advancing_alt returns_alt advancing_string_part advancing_string_esc
      returns_string_part returns_string_esc)

lemma returns_operationP: "returns operationP"
  unfolding operationP_def by (intro returns_alts returns_token) (auto intro: returns_token)

lemma returns_functionP: "returns functionP"
  unfolding functionP_def by (intro returns_alts returns_token) (auto intro: returns_token)

lemma advancing_functionP: "advancing functionP"
  unfolding functionP_def by (intro advancing_alts advancing_token) (auto intro: advancing_token)

lemma returns_preamblePropP: "returns preamblePropP"
  unfolding preamblePropP_def by (simp add: returns_token)

lemma advancing_commaP: "advancing commaP"
  unfolding commaP_def by (rule advancing_token) simp

lemma returns_punctuation:
  "returns lparenP" "returns rparenP" "returns lbrackP" "returns rbrackP" "returns colonP"
  "returns commaP" "returns dotdotP" "returns equalsP"
  unfolding lparenP_def rparenP_def lbrackP_def rbrackP_def colonP_def commaP_def dotdotP_def
    equalsP_def
  by (rule returns_token)+

lemma returns_literals: "returns trueP" "returns falseP" "returns nullP"
  unfolding trueP_def falseP_def nullP_def by (intro returns_result_p returns_token)+

lemma no_hang_valueP:
  "valueP s \<noteq> Raise NonTermination \<and> array_parser s \<noteq> Raise NonTermination"
proof (induction "length s" arbitrary: s rule: less_induct)
  case less
  have arr: "array_parser s \<noteq> Raise NonTermination"
  proof (subst array_parser.simps, rule no_hang_bind)
    show "lbrackP s \<noteq> Raise NonTermination" by (rule returnsD[OF returns_punctuation(3)])
  next
    fix a n assume "lbrackP s = Ok a n"
    from advancingD[OF advancing_lbrackP this] have lt: "length (drop n s) < length s" .
    show "bind (sep_by valueP commaP)
           (\<lambda>elements. bind rbrackP (\<lambda>_. success (VArr elements))) (drop n s)
          \<noteq> Raise NonTermination"
    proof (rule no_hang_bind)
      show "sep_by valueP commaP (drop n s) \<noteq> Raise NonTermination"
      proof (rule no_hang_sep_by[OF advancing_commaP returns_punctuation(6)])
        fix t :: string assume "length t \<le> length (drop n s)"
        with lt have "length t < length s" by simp
        from less[OF this] show "valueP t \<noteq> Raise NonTermination" by simp
      qed
    next
      fix es k
      show "bind rbrackP (\<lambda>_. success (VArr es)) (drop k (drop n s)) \<noteq> Raise NonTermination"
        by (rule returnsD[OF returns_bind[OF returns_punctuation(4) returns_success]])
    qed
  qed
  have "valueP s \<noteq> Raise NonTermination"
    by (subst valueP.simps)
       (intro no_hang_alt arr
          returnsD[OF returns_map_p[OF returns_quotedStringP]]
          returnsD[OF returns_map_p[OF returns_floatP]]
          returnsD[OF returns_map_p[OF returns_integerP]]
          returnsD[OF returns_map_p[OF returns_literals(1)]]
          returnsD[OF returns_map_p[OF returns_literals(2)]]
          returnsD[OF returns_result_p[OF returns_literals(3)]])
  with arr show ?case by simp
qed

lemma returns_valueP: "returns valueP"
  by (simp add: returns_def no_hang_valueP)

lemma returns_leafTermP: "returns leafTermP"
  unfolding leafTermP_def isinstance_term_def id_term_def predicate_term_def function_term_def
  by (intro returns_alt returns_map_p returns_lexeme returns_skip returns_then_p returns_bind
      returns_many advancing_then_p1 advancing_commaP returns_pstring returns_quotedStringP
      returns_punctuation returns_variableP returns_operationP returns_valueP returns_functionP
      returns_success)

lemma advancing_leafTermP: "advancing leafTermP"
  unfolding leafTermP_def isinstance_term_def id_term_def predicate_term_def function_term_def
  by (intro advancing_alt advancing_map_p advancing_lexeme advancing_skip1 advancing_then_p1
      advancing_bind1 advancing_pstring advancing_variableP advancing_functionP) simp_all

lemma advancing_simpleTermP: "advancing simpleTermP"
proof -
  have "advancing (alt (skip (then_p lparenP (\<lambda>t. combined_term t)) rparenP) leafTermP)"
    by (intro advancing_alt advancing_skip1 advancing_then_p1 advancing_lparenP
        advancing_leafTermP)
  then show ?thesis
    unfolding advancing_def by (subst (asm) simpleTermP.simps[symmetric]) simp
qed

lemma advancing_combined_term: "advancing combined_term"
proof -
  have "advancing (bind (\<lambda>t. simpleTermP t) (\<lambda>left t. combined_term_loop left t))"
    by (intro advancing_bind1) (simp add: advancing_simpleTermP)
  then show ?thesis
    unfolding advancing_def by (subst (asm) combined_term.simps[symmetric]) simp
qed


lemma returns_boolOpP: "returns boolOpP"
  unfolding boolOpP_def by (intro returns_lexeme returns_alt returns_pstring)

lemma no_hang_terms:
  "simpleTermP s \<noteq> Raise NonTermination
   \<and> (\<forall>result. combined_term_loop result s \<noteq> Raise NonTermination)
   \<and> combined_term s \<noteq> Raise NonTermination"
proof (induction "length s" arbitrary: s rule: less_induct)
  case less
  have simple: "simpleTermP s \<noteq> Raise NonTermination"
  proof (subst simpleTermP.simps, rule no_hang_alt)
    show "skip (then_p lparenP (\<lambda>t. combined_term t)) rparenP s \<noteq> Raise NonTermination"
      unfolding skip_def then_p_def
    proof (rule no_hang_bind, rule no_hang_bind)
      show "lparenP s \<noteq> Raise NonTermination" by (rule returnsD[OF returns_punctuation(1)])
    next
      fix a n assume "lparenP s = Ok a n"
      from advancingD[OF advancing_lparenP this] have "length (drop n s) < length s" .
      from less[OF this] show "combined_term (drop n s) \<noteq> Raise NonTermination" by simp
    next
      fix a n
      show "bind rparenP (\<lambda>_. success a) (drop n s) \<noteq> Raise NonTermination"
        by (rule returnsD[OF returns_bind[OF returns_punctuation(2) returns_success]])
    qed
  next
    show "leafTermP s \<noteq> Raise NonTermination" by (rule returnsD[OF returns_leafTermP])
  qed
  have loop: "combined_term_loop result s \<noteq> Raise NonTermination" for result
  proof (subst combined_term_loop.simps, rule no_hang_bind)
    show "alt (map_p Some boolOpP) (success None) s \<noteq> Raise NonTermination"
      by (rule returnsD[OF returns_alt[OF returns_map_p[OF returns_boolOpP] returns_success]])
  next
    fix op n assume b: "alt (map_p Some boolOpP) (success None) s = Ok op n"
    show "(case op of
             None \<Rightarrow> success result (drop n s)
           | Some op \<Rightarrow>
               bind (\<lambda>t. simpleTermP t)
                 (\<lambda>right t. combined_term_loop (CombinedTerm result op right) t) (drop n s))
          \<noteq> Raise NonTermination"
    proof (cases op)
      case None
      then show ?thesis by (simp add: success_def)
    next
      case (Some opr)
      from bool_op_advances[OF b[unfolded Some]] have lt: "length (drop n s) < length s" .
      have "bind (\<lambda>t. simpleTermP t)
              (\<lambda>right t. combined_term_loop (CombinedTerm result opr right) t) (drop n s)
            \<noteq> Raise NonTermination"
      proof (rule no_hang_bind)
        from less[OF lt] show "simpleTermP (drop n s) \<noteq> Raise NonTermination" by simp
      next
        fix right m
        have "length (drop m (drop n s)) < length s" using lt by simp
        from less[OF this]
        show "combined_term_loop (CombinedTerm result opr right) (drop m (drop n s))
              \<noteq> Raise NonTermination" by simp
      qed
      then show ?thesis by (simp add: Some)
    qed
  qed
  have "combined_term s \<noteq> Raise NonTermination"
  proof (subst combined_term.simps, rule no_hang_bind)
    show "simpleTermP s \<noteq> Raise NonTermination" by (rule simple)
  next
    fix left n assume "simpleTermP s = Ok left n"
    from advancingD[OF advancing_simpleTermP this] have "length (drop n s) < length s" .
    from less[OF this] show "combined_term_loop left (drop n s) \<noteq> Raise NonTermination"
      by simp
  qed
  with simple loop show ?case by simp
qed

lemma returns_term_parser: "returns term_parser"
  unfolding term_parser_def by (intro returns_alt) (simp_all add: returns_def no_hang_terms)

lemma advancing_term_parser: "advancing term_parser"
  unfolding term_parser_def
  by (intro advancing_alt advancing_combined_term advancing_simpleTermP)

lemma returns_range_parser: "returns (range_parser env)"
  unfolding range_parser_def Let_def
  by (intro returns_bind returns_optional returns_alt returns_punctuation returns_integerP
      returns_success)

lemma returns_edge_definition: "returns (edge_definition env)"
  unfolding edge_definition_def Let_def
  by (intro returns_bind returns_optional returns_literalP returns_range_parser returns_success)

lemma returns_navigation_parser: "returns (navigation_parser env)"
  unfolding navigation_parser_def outP_def inP_def inOutP_def
  by (intro returns_alt returns_map_p returns_lexeme returns_skip returns_then_p returns_pstring
      returns_edge_definition)

lemma returns_part_parser: "returns (part_parser env)"
  unfolding part_parser_def pin_parser_def
  by (intro returns_bind returns_term_parser returns_whitespace returns_alt returns_map_p
      returns_navigation_parser returns_optional returns_token returns_success)

lemma advancing_part_parser: "advancing (part_parser env)"
  unfolding part_parser_def by (intro advancing_bind1 advancing_term_parser)

lemma returns_preambleP: "returns preambleP"
  unfolding preambleP_def preamble_value_parser_def
  by (intro returns_map_p returns_skip returns_sep_by advancing_commaP returns_punctuation
      returns_bind returns_preamblePropP returns_alt returns_quotedStringP returns_literalP
      returns_success)

lemma returns_query_parser: "returns (query_parser env)"
  unfolding query_parser_def Let_def
  by (intro returns_bind returns_optional returns_preambleP returns_many advancing_part_parser
      returns_part_parser)
     (simp add: returns_def raise_def success_def)

lemma parse_query_returns: "parse_query env query \<noteq> Inl NonTermination"
  using returnsD[OF returns_query_parser, of env query]
  by (auto simp: parse_query_def parse_def split: result.splits)


section \<open>Properties of the parser\<close>

lemma bind_Ok_iff:
  "bind p f s = Ok b n \<longleftrightarrow> (\<exists>a k m. p s = Ok a k \<and> f a (drop k s) = Ok b m \<and> n = k + m)"
  by (auto simp: bind_def split: result.splits)

lemma boolOpP_no_raise: "boolOpP s \<noteq> Raise e"
  by (auto simp: boolOpP_def lexeme_def skip_def then_p_def bind_def whitespace_def alt_def
      pstring_def success_def split: result.splits)

lemma bool_or_none:
  "alt (map_p Some boolOpP) (success None) s =
     (case boolOpP s of Ok op k \<Rightarrow> Ok (Some op) k | Fail \<Rightarrow> Ok None 0 | Raise e \<Rightarrow> Raise e)"
  by (simp add: alt_def map_p_def bind_def success_def split: result.splits)

lemma boolOpP_pos: "boolOpP s = Ok op k \<Longrightarrow> length (drop k s) < length s"
  using bool_op_advances[of s op k] by (simp add: bool_or_none)

lemma loop_unfold:
  "combined_term_loop result s =
     (case boolOpP s of
        Fail \<Rightarrow> Ok result 0
      | Raise e \<Rightarrow> Raise e
      | Ok op k \<Rightarrow>
          (case simpleTermP (drop k s) of
             Fail \<Rightarrow> Fail
           | Raise e \<Rightarrow> Raise e
           | Ok right m \<Rightarrow>
               (case combined_term_loop (CombinedTerm result op right) (drop (k + m) s) of
                  Ok r j \<Rightarrow> Ok r (k + (m + j))
                | Fail \<Rightarrow> Fail
                | Raise e \<Rightarrow> Raise e)))"
  by (subst combined_term_loop.simps)
     (simp add: bind_def bool_or_none success_def add.commute split: result.splits)

lemma loop_chain:
  "op_chain s steps \<Longrightarrow>
     combined_term_loop result s = Ok (fold_chain result steps) (consumed steps)"
proof (induction steps arbitrary: s result)
  case Nil
  then show ?case by (subst loop_unfold) (simp add: fold_chain_def consumed_def)
next
  case (Cons st steps)
  obtain op k right m where st: "st = (op, k, right, m)" by (cases st)
  from Cons.prems st have b: "boolOpP s = Ok op k" and t: "simpleTermP (drop k s) = Ok right m"
    and c: "op_chain (drop (k + m) s) steps" by simp_all
  from Cons.IH[OF c, of "CombinedTerm result op right"] show ?case
    by (subst loop_unfold) (simp add: b t st fold_chain_def consumed_def)
qed

lemma chain_loop:
  "combined_term_loop result s = Ok r n \<Longrightarrow>
     \<exists>steps. op_chain s steps \<and> r = fold_chain result steps \<and> n = consumed steps"
proof (induction "length s" arbitrary: s result r n rule: less_induct)
  case less
  show ?case
  proof (cases "boolOpP s")
    case Fail
    with less.prems have "r = result" "n = 0" by (subst (asm) loop_unfold, simp)+
    then show ?thesis using Fail by (intro exI[of _ "[]"]) (simp add: fold_chain_def consumed_def)
  next
    case (Raise e)
    with less.prems show ?thesis by (subst (asm) loop_unfold) simp
  next
    case (Ok op k)
    from less.prems Ok obtain right m j where t: "simpleTermP (drop k s) = Ok right m"
      and l: "combined_term_loop (CombinedTerm result op right) (drop (k + m) s) = Ok r j"
      and n: "n = k + (m + j)"
      by (subst (asm) loop_unfold) (auto split: result.splits)
    from boolOpP_pos[OF Ok] have "length (drop (k + m) s) < length s" by simp
    from less.hyps[OF this l] obtain steps where c: "op_chain (drop (k + m) s) steps"
      and r: "r = fold_chain (CombinedTerm result op right) steps" and j: "j = consumed steps"
      by blast
    show ?thesis
      by (intro exI[of _ "(op, k, right, m) # steps"])
         (simp add: Ok t c r j n fold_chain_def consumed_def)
  qed
qed

text \<open>
  C4. The term parser gives \<open>and\<close> and \<open>or\<close> the same precedence and folds a chain of
  simple terms from left to right as written. \<open>combined_term\<close> succeeds exactly when a
  simple term is followed by a chain of operators and simple terms, and its result is
  the left fold of that chain, whatever the operators are; \<open>term_parser\<close> returns that
  result; so \<open>a and b or c\<close> is
  \<open>CombinedTerm(CombinedTerm(a, and, b), or, c)\<close>, \<open>a or b and c\<close> groups to the left in the
  same way, and parentheses give the other grouping.
\<close>

theorem combined_term_folds_left:
  "(combined_term s = Ok r n \<longleftrightarrow>
      (\<exists>left n0 steps. simpleTermP s = Ok left n0 \<and> op_chain (drop n0 s) steps
         \<and> r = fold_chain left steps \<and> n = n0 + consumed steps))
   \<and> (combined_term s = Ok r n \<longrightarrow> term_parser s = Ok r n)
   \<and> fold_chain a [(op1, k1, b, m1), (op2, k2, c, m2)] = CombinedTerm (CombinedTerm a op1 b) op2 c
   \<and> term_parser ''a<1 and b<2 or c<3'' =
         Ok (CombinedTerm (CombinedTerm (Predicate ''a'' ''<'' (VInt 1) []) ''and''
                             (Predicate ''b'' ''<'' (VInt 2) []))
               ''or'' (Predicate ''c'' ''<'' (VInt 3) [])) 18
   \<and> term_parser ''a<1 or b<2 and c<3'' =
         Ok (CombinedTerm (CombinedTerm (Predicate ''a'' ''<'' (VInt 1) []) ''or''
                             (Predicate ''b'' ''<'' (VInt 2) []))
               ''and'' (Predicate ''c'' ''<'' (VInt 3) [])) 18
   \<and> term_parser ''a<1 and (b<2 or c<3)'' =
         Ok (CombinedTerm (Predicate ''a'' ''<'' (VInt 1) []) ''and''
               (CombinedTerm (Predicate ''b'' ''<'' (VInt 2) []) ''or''
                  (Predicate ''c'' ''<'' (VInt 3) []))) 20"
proof -
  have "combined_term s = Ok r n \<longleftrightarrow>
      (\<exists>left n0 steps. simpleTermP s = Ok left n0 \<and> op_chain (drop n0 s) steps
         \<and> r = fold_chain left steps \<and> n = n0 + consumed steps)" (is "?L \<longleftrightarrow> ?R")
  proof
    assume ?L
    then obtain left n0 m where l: "simpleTermP s = Ok left n0"
      and lp: "combined_term_loop left (drop n0 s) = Ok r m" and n: "n = n0 + m"
      by (subst (asm) combined_term.simps) (auto simp: bind_Ok_iff)
    from chain_loop[OF lp] n l show ?R by blast
  next
    assume ?R
    then obtain left n0 steps where l: "simpleTermP s = Ok left n0"
      and c: "op_chain (drop n0 s) steps" and r: "r = fold_chain left steps"
      and n: "n = n0 + consumed steps" by blast
    from loop_chain[OF c, of left] show ?L
      by (subst combined_term.simps) (simp add: bind_def l r n)
  qed
  moreover have "term_parser ''a<1 and b<2 or c<3'' =
         Ok (CombinedTerm (CombinedTerm (Predicate ''a'' ''<'' (VInt 1) []) ''and''
                             (Predicate ''b'' ''<'' (VInt 2) []))
               ''or'' (Predicate ''c'' ''<'' (VInt 3) [])) 18"
    by code_simp
  moreover have "term_parser ''a<1 or b<2 and c<3'' =
         Ok (CombinedTerm (CombinedTerm (Predicate ''a'' ''<'' (VInt 1) []) ''or''
                             (Predicate ''b'' ''<'' (VInt 2) []))
               ''and'' (Predicate ''c'' ''<'' (VInt 3) [])) 18"
    by code_simp
  moreover have "term_parser ''a<1 and (b<2 or c<3)'' =
         Ok (CombinedTerm (Predicate ''a'' ''<'' (VInt 1) []) ''and''
               (CombinedTerm (Predicate ''b'' ''<'' (VInt 2) []) ''or''
                  (Predicate ''c'' ''<'' (VInt 3) []))) 20"
    by code_simp
  moreover have "combined_term s = Ok r n \<longrightarrow> term_parser s = Ok r n"
    by (simp add: term_parser_def alt_def)
  ultimately show ?thesis by (simp add: fold_chain_def)
qed

text \<open>
  The chain of the first text, found by the theorem from the result of \<open>combined_term\<close>.
\<close>

theorem combined_term_folds_left_witness:
  "\<exists>left n0 steps. simpleTermP ''a<1 and b<2 or c<3'' = Ok left n0
      \<and> op_chain (drop n0 ''a<1 and b<2 or c<3'') steps
      \<and> CombinedTerm (CombinedTerm (Predicate ''a'' ''<'' (VInt 1) []) ''and''
                             (Predicate ''b'' ''<'' (VInt 2) []))
               ''or'' (Predicate ''c'' ''<'' (VInt 3) []) = fold_chain left steps
      \<and> 18 = n0 + consumed steps"
proof -
  have h: "combined_term ''a<1 and b<2 or c<3'' =
         Ok (CombinedTerm (CombinedTerm (Predicate ''a'' ''<'' (VInt 1) []) ''and''
                             (Predicate ''b'' ''<'' (VInt 2) []))
               ''or'' (Predicate ''c'' ''<'' (VInt 3) [])) 18"
    by code_simp
  from combined_term_folds_left[of "''a<1 and b<2 or c<3''" _ 18] h show ?thesis by blast
qed

lemma parse_Inr_iff: "parse p s = Inr a \<longleftrightarrow> (\<exists>n. p s = Ok a n \<and> drop n s = [])"
  by (auto simp: parse_def split: result.splits)

lemma many_in_sequence:
  "many p s = Ok xs m \<Longrightarrow>
     \<exists>steps. in_sequence p s steps \<and> xs = map fst steps \<and> m = sum_list (map snd steps)"
proof (induction p s arbitrary: xs m rule: many.induct)
  case (1 p s)
  show ?case
  proof (cases "p s")
    case Fail
    with 1(2) have "xs = []" "m = 0" by (subst (asm) many.simps, simp)+
    then show ?thesis using Fail by (intro exI[of _ "[]"]) simp
  next
    case (Raise e)
    with 1(2) show ?thesis by (subst (asm) many.simps) simp
  next
    case (Ok a n)
    from 1(2) Ok have lt: "length (drop n s) < length s"
      by (subst (asm) many.simps) (auto split: if_splits)
    with 1(2) Ok obtain as j where r: "many p (drop n s) = Ok as j" and xs: "xs = a # as"
      and m: "m = n + j"
      by (subst (asm) many.simps) (auto split: result.splits)
    from 1(1)[OF Ok lt r] obtain steps where s: "in_sequence p (drop n s) steps"
      and as: "as = map fst steps" and j: "j = sum_list (map snd steps)" by blast
    from lt have "0 < n" by (cases n) auto
    then show ?thesis
      by (intro exI[of _ "(a, n) # steps"]) (simp add: Ok s as j xs m)
  qed
qed

lemma query_parser_Ok:
  assumes "query_parser env text = Ok q n"
  shows "\<exists>mp k parts m. optional preambleP text = Ok mp k
           \<and> many (part_parser env) (drop k text) = Ok parts m
           \<and> edge_type_of env (preamble_of mp) \<in> set (EdgeType_allowed_edge_types env)
           \<and> q = Query (rev (map (fill_edge_type (edge_type_of env (preamble_of mp))) parts)) None
           \<and> n = k + m"
  using assms
  unfolding query_parser_def bind_Ok_iff Let_def edge_type_of_def preamble_of_def
  by (auto simp: raise_def success_def split: if_splits)

text \<open>
  C10. For every text that parses, \<open>query_parser\<close> returns the parts in the reverse of
  their order in the text: the parts are parsed one after the other behind the preamble,
  and the query holds them, each with the edge type filled in, in reverse; the part
  written first is the last element of the query, the part written last the first.
\<close>

theorem query_parser_reverses_parts:
  assumes "parse_query env text = Inr q"
  shows "\<exists>mp k steps.
           optional preambleP text = Ok mp k
         \<and> in_sequence (part_parser env) (drop k text) steps
         \<and> query_parts q =
             rev (map (fill_edge_type (edge_type_of env (preamble_of mp))) (map fst steps))
         \<and> (steps \<noteq> [] \<longrightarrow>
               last (query_parts q) =
                 fill_edge_type (edge_type_of env (preamble_of mp)) (fst (hd steps))
             \<and> hd (query_parts q) =
                 fill_edge_type (edge_type_of env (preamble_of mp)) (fst (last steps)))"
proof -
  from assms obtain n where "query_parser env text = Ok q n"
    by (auto simp: parse_query_def parse_Inr_iff)
  from query_parser_Ok[OF this] obtain mp k parts m where pre: "optional preambleP text = Ok mp k"
    and parts: "many (part_parser env) (drop k text) = Ok parts m"
    and q: "q = Query (rev (map (fill_edge_type (edge_type_of env (preamble_of mp))) parts)) None"
    by blast
  from many_in_sequence[OF parts] obtain steps
    where s: "in_sequence (part_parser env) (drop k text) steps" and p: "parts = map fst steps"
    by blast
  let ?et = "edge_type_of env (preamble_of mp)"
  have "query_parts q = rev (map (fill_edge_type ?et) (map fst steps))"
    by (simp add: q p)
  moreover have "steps \<noteq> [] \<Longrightarrow>
       last (query_parts q) = fill_edge_type ?et (fst (hd steps))
     \<and> hd (query_parts q) = fill_edge_type ?et (fst (last steps))"
    by (simp add: q p last_rev hd_rev hd_map last_map)
  ultimately show ?thesis using pre s by blast
qed

theorem query_parser_reverses_parts_witness:
  "parse_query env0 ''a<1 --> b<2'' =
     Inr (Query [Part (Predicate ''b'' ''<'' (VInt 2) []) False None None,
                 Part (Predicate ''a'' ''<'' (VInt 1) []) False
                   (Some \<lparr>start = 1, until = 1, edge_type = Some (ustr ''default''),
                          direction = ''out''\<rparr>) None] None)
   \<and> (\<exists>mp k steps.
           optional preambleP ''a<1 --> b<2'' = Ok mp k
         \<and> in_sequence (part_parser env0) (drop k ''a<1 --> b<2'') steps
         \<and> [Part (Predicate ''b'' ''<'' (VInt 2) []) False None None,
                 Part (Predicate ''a'' ''<'' (VInt 1) []) False
                   (Some \<lparr>start = 1, until = 1, edge_type = Some (ustr ''default''),
                          direction = ''out''\<rparr>) None]
             = rev (map (fill_edge_type (edge_type_of env0 (preamble_of mp))) (map fst steps)))"
proof -
  have h: "parse_query env0 ''a<1 --> b<2'' =
     Inr (Query [Part (Predicate ''b'' ''<'' (VInt 2) []) False None None,
                 Part (Predicate ''a'' ''<'' (VInt 1) []) False
                   (Some \<lparr>start = 1, until = 1, edge_type = Some (ustr ''default''),
                          direction = ''out''\<rparr>) None] None)"
    by code_simp
  from query_parser_reverses_parts[OF h] show ?thesis using h by simp blast
qed

lemma parse_query_steps:
  assumes "optional preambleP text = Ok mp k"
    and "many (part_parser env) (drop k text) = Ok parts m"
  shows "parse_query env text =
     (if edge_type_of env (preamble_of mp) \<notin> set (EdgeType_allowed_edge_types env)
      then Inl (AttributeError (invalid_edge_type env (edge_type_of env (preamble_of mp))))
      else if drop (k + m) text = []
      then Inr (Query (rev (map (fill_edge_type (edge_type_of env (preamble_of mp))) parts)) None)
      else Inl ParseError)"
  using assms
  by (simp add: parse_query_def parse_def query_parser_def bind_def Let_def edge_type_of_def
      preamble_of_def raise_def success_def add.commute)

lemma parse_query_raise:
  assumes "optional preambleP text = Ok mp k"
    and "many (part_parser env) (drop k text) = Raise e"
  shows "parse_query env text = Inl e"
  using assms
  by (simp add: parse_query_def parse_def query_parser_def bind_def Let_def)

lemma q6_preamble:
  "optional preambleP ''cpu > 4 and (mem < 23 or mem < 59) --> some.int.value < 1'' = Ok None 0"
  by code_simp

lemma q6_parts:
  "many (part_parser env) (drop 0 ''cpu > 4 and (mem < 23 or mem < 59) --> some.int.value < 1'') =
     Ok [Part (CombinedTerm (Predicate ''cpu'' ''>'' (VInt 4) []) ''and''
                 (CombinedTerm (Predicate ''mem'' ''<'' (VInt 23) []) ''or''
                    (Predicate ''mem'' ''<'' (VInt 59) [])))
            False
            (Some \<lparr>start = 1, until = 1, edge_type = None, direction = ''out''\<rparr>) None,
         Part (Predicate ''some.int.value'' ''<'' (VInt 1) []) False None None] 57"
  by code_simp

lemma edge_definition_default:
  "optional literalP s = Ok e k \<Longrightarrow> range_parser env (drop k s) = Fail
     \<Longrightarrow> edge_definition env s = Ok (1, 1, e) k"
  by (simp add: edge_definition_def bind_def optional_def alt_def map_p_def success_def)

lemma navigation_examples:
  "navigation_parser env ''-->'' =
     Ok \<lparr>start = 1, until = 1, edge_type = None, direction = ''out''\<rparr> 3"
  "navigation_parser env ''<--'' =
     Ok \<lparr>start = 1, until = 1, edge_type = None, direction = ''in''\<rparr> 3"
  "navigation_parser env ''--'' =
     Ok \<lparr>start = 1, until = 1, edge_type = None, direction = ''inout''\<rparr> 2"
  "navigation_parser env ''-delete->'' =
     Ok \<lparr>start = 1, until = 1, edge_type = Some (ustr ''delete''), direction = ''out''\<rparr> 9"
  by code_simp+

text \<open>
  C6. The text \<open>cpu > 4 and (mem < 23 or mem < 59) --> some.int.value < 1\<close> parses into
  a query of two parts, joined by an outbound navigation with the range from 1 to 1 and
  the default edge type; and an edge definition without a range has start 1 and until 1,
  in each of the three directions and with or without an edge type. The default edge
  type has to be an allowed one, as \<open>query_parser\<close> checks it.
\<close>

theorem two_parts_default_navigation:
  assumes "EdgeType_default env \<in> set (EdgeType_allowed_edge_types env)"
  shows "parse_query env ''cpu > 4 and (mem < 23 or mem < 59) --> some.int.value < 1'' =
           Inr (Query
             [Part (Predicate ''some.int.value'' ''<'' (VInt 1) []) False None None,
              Part (CombinedTerm (Predicate ''cpu'' ''>'' (VInt 4) []) ''and''
                      (CombinedTerm (Predicate ''mem'' ''<'' (VInt 23) []) ''or''
                         (Predicate ''mem'' ''<'' (VInt 59) [])))
                   False
                   (Some \<lparr>start = 1, until = 1, edge_type = Some (EdgeType_default env),
                          direction = ''out''\<rparr>)
                   None]
             None)
       \<and> (\<forall>s e k. optional literalP s = Ok e k \<and> range_parser env (drop k s) = Fail
             \<longrightarrow> edge_definition env s = Ok (1, 1, e) k)
       \<and> navigation_parser env ''-->'' =
           Ok \<lparr>start = 1, until = 1, edge_type = None, direction = ''out''\<rparr> 3
       \<and> navigation_parser env ''<--'' =
           Ok \<lparr>start = 1, until = 1, edge_type = None, direction = ''in''\<rparr> 3
       \<and> navigation_parser env ''--'' =
           Ok \<lparr>start = 1, until = 1, edge_type = None, direction = ''inout''\<rparr> 2
       \<and> navigation_parser env ''-delete->'' =
           Ok \<lparr>start = 1, until = 1, edge_type = Some (ustr ''delete''), direction = ''out''\<rparr> 9"
  using assms edge_definition_default navigation_examples
  by (simp add: parse_query_steps[OF q6_preamble q6_parts] edge_type_of_def preamble_of_def dict_def)

theorem two_parts_default_navigation_witness:
  "EdgeType_default env0 \<in> set (EdgeType_allowed_edge_types env0)
   \<and> parse_query env0 ''cpu > 4 and (mem < 23 or mem < 59) --> some.int.value < 1'' =
           Inr (Query
             [Part (Predicate ''some.int.value'' ''<'' (VInt 1) []) False None None,
              Part (CombinedTerm (Predicate ''cpu'' ''>'' (VInt 4) []) ''and''
                      (CombinedTerm (Predicate ''mem'' ''<'' (VInt 23) []) ''or''
                         (Predicate ''mem'' ''<'' (VInt 59) [])))
                   False
                   (Some \<lparr>start = 1, until = 1, edge_type = Some (ustr ''default''),
                          direction = ''out''\<rparr>)
                   None]
             None)
   \<and> edge_definition env0 ''default->'' = Ok (1, 1, Some ''default'') 7"
proof -
  have h: "EdgeType_default env0 \<in> set (EdgeType_allowed_edge_types env0)"
    by (simp add: env0_def)
  have l: "optional literalP ''default->'' = Ok (Some ''default'') 7" by code_simp
  have r: "range_parser env0 (drop 7 ''default->'') = Fail" by code_simp
  from two_parts_default_navigation[OF h] h l r show ?thesis
    by (simp add: env0_def)
qed

lemma ec2_preamble: "optional preambleP ''ec2'' = Ok None 0"
  by code_simp

lemma ec2_parts: "many (part_parser env) (drop 0 ''ec2'') = Ok [] 0"
  by code_simp

lemma isinstance_preamble: "optional preambleP ''isinstance(\"ec2\")'' = Ok None 0"
  by code_simp

lemma isinstance_parts:
  "many (part_parser env) (drop 0 ''isinstance(\"ec2\")'') =
     Ok [Part (IsInstanceTerm (ustr ''ec2'')) False None None] 17"
  by code_simp

text \<open>
  C9. The bare identifier \<open>ec2\<close> is not a query of this grammar: no part is parsed and
  \<open>Parser.parse\<close> raises \<open>ParseError\<close>.
\<close>

theorem bare_identifier_counterexample:
  "parse_query env0 ''ec2'' = Inl ParseError"
  by code_simp

text \<open>
  C9, as the grammar has it: the kind test is written \<open>isinstance("ec2")\<close>, which parses
  into a query with the single part \<open>IsInstanceTerm("ec2")\<close>, and the bare identifier is
  rejected with \<open>ParseError\<close>.
\<close>

theorem kind_test_is_isinstance:
  assumes "EdgeType_default env \<in> set (EdgeType_allowed_edge_types env)"
  shows "parse_query env ''ec2'' = Inl ParseError
       \<and> parse_query env ''isinstance(\"ec2\")'' =
           Inr (Query [Part (IsInstanceTerm (ustr ''ec2'')) False None None] None)"
  using assms
  by (simp add: parse_query_steps[OF ec2_preamble ec2_parts]
      parse_query_steps[OF isinstance_preamble isinstance_parts]
      edge_type_of_def preamble_of_def dict_def)

theorem kind_test_is_isinstance_witness:
  "EdgeType_default env0 \<in> set (EdgeType_allowed_edge_types env0)
   \<and> parse_query env0 ''ec2'' = Inl ParseError
   \<and> parse_query env0 ''isinstance(\"ec2\")'' =
           Inr (Query [Part (IsInstanceTerm (ustr ''ec2'')) False None None] None)"
proof -
  have h: "EdgeType_default env0 \<in> set (EdgeType_allowed_edge_types env0)"
    by (simp add: env0_def)
  from kind_test_is_isinstance[OF h] h show ?thesis by simp
qed

text \<open>
  C7. The check of the edge type comes after the parts have been parsed, so an exception
  raised while parsing them is the one that leaves \<open>parse_query\<close>: with the edge type
  \<open>foo\<close>, which is not allowed, and the value \<open>.\<close>, on which \<open>float\<close> raises, the result is
  \<open>ValueError\<close>.
\<close>

theorem edge_type_check_preempted:
  "parse_query env0 ''edge_type=foo: a < .'' = Inl ValueError
   \<and> optional preambleP ''edge_type=foo: a < .'' = Ok (Some [(''edge_type'', ustr ''foo'')]) 15
   \<and> ustr ''foo'' \<notin> set (EdgeType_allowed_edge_types env0)"
  by code_simp


section \<open>Properties of the query model\<close>

subsection \<open>Simplification\<close>

lemma simplified_apply_laws:
  "simplified l \<Longrightarrow> simplified r \<Longrightarrow> simplified (apply_laws l op r)"
  by (auto simp: apply_laws_def)

lemma simplified_simplify: "simplified (simplify t)"
  by (induction t rule: simplify.induct) (auto intro: simplified_apply_laws)

lemma simplify_simplified: "simplified t \<Longrightarrow> simplify t = t"
  by (induction t rule: simplify.induct) (auto simp: apply_laws_def)

lemma simplify_idem: "simplify (simplify t) = simplify t"
  by (rule simplify_simplified[OF simplified_simplify])

text \<open>
  C2. \<open>AllTerm\<close> is the identity of \<open>and\<close> and absorbs \<open>or\<close>:
  \<open>simplify(combine(t, and, AllTerm))\<close> is \<open>simplify(t)\<close> and \<open>simplify(combine(t, or, AllTerm))\<close>
  is \<open>AllTerm\<close>, on either side. The laws hold at every depth: in a simplified term and in
  a combined one, no \<open>and\<close> and no \<open>or\<close> has \<open>AllTerm\<close> as an operand. The nested term of
  the test \<open>test_simplify\<close> becomes \<open>test == true\<close>. Settled on the model of section 4.3.
\<close>

theorem allterm_identity_and_absorbing:
  "simplify (combine t ''and'' AllTerm) = simplify t
   \<and> simplify (combine AllTerm ''and'' t) = simplify t
   \<and> simplify (combine t ''or'' AllTerm) = AllTerm
   \<and> simplify (combine AllTerm ''or'' t) = AllTerm
   \<and> simplified (simplify t)
   \<and> simplified (combine t op u)
   \<and> combine AllTerm ''and''
        (combine (Predicate ''test'' ''=='' (VBool True) []) ''and''
           (combine (IsTerm [''test'']) ''or'' AllTerm))
      = Predicate ''test'' ''=='' (VBool True) []"
  by (simp add: combine_def apply_laws_def simplify_idem simplified_simplify
       simplified_apply_laws[unfolded apply_laws_def])


text \<open>A term with \<open>AllTerm\<close> three levels down.\<close>

theorem allterm_identity_and_absorbing_witness:
  "simplify (CombinedTerm (IsTerm [''a''])
      ''and'' (CombinedTerm (IsTerm [''b'']) ''and'' (CombinedTerm AllTerm ''or'' (IsTerm [''c''])))) =
     CombinedTerm (IsTerm [''a'']) ''and'' (IsTerm [''b''])
   \<and> simplified (simplify (CombinedTerm (IsTerm [''a''])
      ''and'' (CombinedTerm (IsTerm [''b'']) ''and'' (CombinedTerm AllTerm ''or'' (IsTerm [''c''])))))"
proof -
  have "simplify (CombinedTerm (IsTerm [''a''])
      ''and'' (CombinedTerm (IsTerm [''b'']) ''and'' (CombinedTerm AllTerm ''or'' (IsTerm [''c''])))) =
     CombinedTerm (IsTerm [''a'']) ''and'' (IsTerm [''b''])"
    by (simp add: apply_laws_def)
  with allterm_identity_and_absorbing[of "CombinedTerm (IsTerm [''a''])
      ''and'' (CombinedTerm (IsTerm [''b'']) ''and'' (CombinedTerm AllTerm ''or'' (IsTerm [''c''])))"]
  show ?thesis by blast
qed


subsection \<open>The rewrite for ancestors and descendants\<close>








lemma rewrite_part_unchanged:
  assumes "\<not> list_ex (is_ancestor_descendant env) (term_paths (part_term p) @ additional)"
  shows "rewrite_part env additional p = p"
proof (cases p)
  case (Part t pinned nav limit)
  from assms have "filter (is_ancestor_descendant env) (term_paths t @ additional) = []"
    by (simp add: Part list_ex_iff filter_empty_conv)
  then show ?thesis using Part by simp
qed




lemma mq_name_for: "mq_name (merge_query_for env nk) = fst nk @ ''.'' @ snd nk"
  by (simp add: merge_query_for_def)





subsection \<open>Sections\<close>

lemma map_aggregate_inverse:
  "(\<forall>p\<in>set (aggregate_paths a). g (f p) = p) \<Longrightarrow> map_aggregate g (map_aggregate f a) = a"
proof (cases a)
  case (Aggregate group_by group_func)
  assume h: "\<forall>p\<in>set (aggregate_paths a). g (f p) = p"
  have 1: "map g (map f group_by) = group_by"
    using h Aggregate by (auto intro!: map_idI)
  have "\<And>x. x \<in> set group_func \<Longrightarrow> g (f (snd x)) = snd x"
    using h Aggregate by auto
  then have 2: "map (\<lambda>(fn, name). (fn, g name)) (map (\<lambda>(fn, name). (fn, f name)) group_func) = group_func"
    by (auto intro!: map_idI split: prod.splits)
  show ?thesis using 1 2 Aggregate by simp
qed

lemma change_variable_inverse:
  "(\<forall>p\<in>set (all_paths t). g (f p) = p) \<Longrightarrow> change_variable g (change_variable f t) = t"
  "(\<forall>p\<in>set (all_paths_merge m). g (f p) = p)
     \<Longrightarrow> change_variable_merge g (change_variable_merge f m) = m"
  "(\<forall>p\<in>set (all_paths_query q). g (f p) = p)
     \<Longrightarrow> change_variable_query g (change_variable_query f q) = q"
  "(\<forall>p\<in>set (all_paths_part pt). g (f p) = p)
     \<Longrightarrow> change_variable_part g (change_variable_part f pt) = pt"
proof (induction t and m and q and pt rule: all_paths_all_paths_merge_all_paths_query_all_paths_part.induct)
  case (8 pre_filter merges post_filter)
  have "\<And>x. x \<in> set merges \<Longrightarrow> change_variable_merge g (change_variable_merge f x) = x"
    using 8 by auto
  then have "map (change_variable_merge g) (map (change_variable_merge f) merges) = merges"
    by (auto intro!: map_idI)
  then show ?case using 8 by auto
next
  case (10 parts aggregate)
  have "\<And>x. x \<in> set parts \<Longrightarrow> change_variable_part g (change_variable_part f x) = x"
    using 10 by auto
  then have "map (change_variable_part g) (map (change_variable_part f) parts) = parts"
    by (auto intro!: map_idI)
  moreover have "map_option (map_aggregate g) (map_option (map_aggregate f) aggregate) = aggregate"
    using 10(2) by (cases aggregate) (auto intro!: map_aggregate_inverse)
  ultimately show ?case by simp
qed auto

lemma map_aggregate_same:
  "(\<forall>p\<in>set (aggregate_paths a). f p = p) \<Longrightarrow> map_aggregate f a = a"
proof (cases a)
  case (Aggregate group_by group_func)
  assume h: "\<forall>p\<in>set (aggregate_paths a). f p = p"
  have 1: "map f group_by = group_by"
    using h Aggregate by (auto intro!: map_idI)
  have "\<And>x. x \<in> set group_func \<Longrightarrow> f (snd x) = snd x"
    using h Aggregate by auto
  then have 2: "map (\<lambda>(fn, name). (fn, f name)) group_func = group_func"
    by (auto intro!: map_idI split: prod.splits)
  show ?thesis using 1 2 Aggregate by simp
qed

lemma change_variable_same:
  "(\<forall>p\<in>set (all_paths t). f p = p) \<Longrightarrow> change_variable f t = t"
  "(\<forall>p\<in>set (all_paths_merge m). f p = p) \<Longrightarrow> change_variable_merge f m = m"
  "(\<forall>p\<in>set (all_paths_query q). f p = p) \<Longrightarrow> change_variable_query f q = q"
  "(\<forall>p\<in>set (all_paths_part pt). f p = p) \<Longrightarrow> change_variable_part f pt = pt"
proof (induction t and m and q and pt rule: all_paths_all_paths_merge_all_paths_query_all_paths_part.induct)
  case (8 pre_filter merges post_filter)
  have "\<And>x. x \<in> set merges \<Longrightarrow> change_variable_merge f x = x"
    using 8 by auto
  then have "map (change_variable_merge f) merges = merges"
    by (auto intro!: map_idI)
  then show ?case using 8 by auto
next
  case (10 parts aggregate)
  have "\<And>x. x \<in> set parts \<Longrightarrow> change_variable_part f x = x"
    using 10 by auto
  then have "map (change_variable_part f) parts = parts"
    by (auto intro!: map_idI)
  moreover have "map_option (map_aggregate f) aggregate = aggregate"
    using 10(2) by (cases aggregate) (auto intro!: map_aggregate_same)
  ultimately show ?case by simp
qed auto

lemma roundtrip_path:
  assumes "\<not> clashes section name" and "section \<noteq> PathRoot"
  shows "variable_to_relative section (variable_to_absolute section name) = name"
proof (cases "meta_rooted name")
  case True
  then obtain rest where name: "name = CHR ''/'' # rest"
    by (cases name) (auto simp: meta_rooted_def PathRoot_def)
  from assms True have "take (length section + 1) rest \<noteq> section @ ''.''"
    by (simp add: clashes_def name)
  then show ?thesis
    using True assms(2)
    by (simp add: variable_to_relative_def variable_to_absolute_def name PathRoot_def)
next
  case False
  then show ?thesis
    using assms(2) by (simp add: variable_to_relative_def variable_to_absolute_def)
qed

lemma relative_at_root: "relative_to_section PathRoot q = q"
proof -
  have "\<forall>p\<in>set (all_paths_query q). variable_to_relative PathRoot p = p"
    by (simp add: variable_to_relative_def)
  from change_variable_same(3)[of q "variable_to_relative PathRoot", OF this]
  show ?thesis by (simp add: relative_to_section_def)
qed

lemma absolute_at_root:
  "\<not> meta_rooted name \<Longrightarrow> variable_to_absolute PathRoot name = name"
  by (simp add: variable_to_absolute_def)

lemma no_rewrite:
  "\<not> rewrite_applies env q \<Longrightarrow> rewrite_for_ancestors_descendants env (additional_paths q) q = q"
proof (cases q)
  case (Query parts aggregate)
  assume h: "\<not> rewrite_applies env q"
  show ?thesis
  proof (cases parts)
    case Nil
    then show ?thesis using Query by simp
  next
    case (Cons current rest)
    from h have "\<not> list_ex (is_ancestor_descendant env)
        (term_paths (part_term current) @ additional_paths q)"
      by (simp add: Query Cons)
    from rewrite_part_unchanged[OF this] show ?thesis using Query Cons by simp
  qed
qed

lemma on_section_at_root:
  assumes "\<not> list_ex meta_rooted (all_paths_query q)" and "\<not> rewrite_applies env q"
  shows "on_section env PathRoot q = q"
proof -
  from assms(1) have "\<forall>p\<in>set (all_paths_query q). variable_to_absolute PathRoot p = p"
    by (auto simp: list_ex_iff intro: absolute_at_root)
  from change_variable_same(3)[of q "variable_to_absolute PathRoot", OF this]
  have "change_variable_query (variable_to_absolute PathRoot) q = q" .
  with no_rewrite[OF assms(2)] show ?thesis by (simp add: on_section_def Let_def)
qed

text \<open>
  C3. Four queries on which the claim fails. The round trip of \<open>/r.x == 1\<close> under the
  section \<open>r\<close> is \<open>x == 1\<close>: the forward rewrite strips the marker, the backward rewrite
  strips \<open>r.\<close>; the forward rewrite maps both queries to \<open>r.x == 1\<close>, so no backward
  rewrite can return both. The round trip of \<open>/ancestors.d.c < 1\<close> under the section \<open>r\<close>,
  which has no such path, is a query with a merge term: the forward operation applies
  the rewrite for ancestors and descendants and the backward operation does not undo
  it. At the root section, \<open>on_section\<close> strips the marker of \<open>/metadata.b == 23\<close>, and it
  makes a merge term of \<open>a<1 and ancestors.cloud.reported.kind=="cloud"\<close>, as the test
  \<open>test_rewrite_ancestors_descendants\<close> asserts; neither query is left unchanged.
\<close>

theorem section_rewrite_inverse_counterexample:
  "relative_to_section ''r'' (on_section env0 ''r'' clash_query)
     = Query [Part (Predicate ''x'' ''=='' (VInt 1) []) False None None] None
   \<and> relative_to_section ''r'' (on_section env0 ''r'' clash_query) \<noteq> clash_query
   \<and> on_section env0 ''r'' clash_query
     = on_section env0 ''r'' (Query [Part (Predicate ''x'' ''=='' (VInt 1) []) False None None] None)
   \<and> \<not> list_ex (clashes ''r'') (all_paths_query marker_query)
   \<and> relative_to_section ''r'' (on_section env0 ''r'' marker_query)
     = Query [Part (MergeTerm AllTerm [MergeQuery ''ancestors.d'' (until_root env0 ''d'')]
                (Predicate ''/ancestors.d.c'' ''<'' (VInt 1) [])) False None None] None
   \<and> relative_to_section ''r'' (on_section env0 ''r'' marker_query) \<noteq> marker_query
   \<and> on_section env0 PathRoot
        (Query [Part (Predicate ''/metadata.b'' ''=='' (VInt 23) []) False None None] None)
     = Query [Part (Predicate ''metadata.b'' ''=='' (VInt 23) []) False None None] None
   \<and> on_section env0 PathRoot
        (Query [Part (Predicate ''/metadata.b'' ''=='' (VInt 23) []) False None None] None)
     \<noteq> Query [Part (Predicate ''/metadata.b'' ''=='' (VInt 23) []) False None None] None
   \<and> on_section env0 PathRoot
        (Query [Part (CombinedTerm (Predicate ''a'' ''<'' (VInt 1) []) ''and''
                  (Predicate ''ancestors.cloud.reported.kind'' ''=='' (VStr (ustr ''cloud'')) []))
                 False None None] None)
     = Query [Part (MergeTerm (Predicate ''a'' ''<'' (VInt 1) [])
                [MergeQuery ''ancestors.cloud'' (until_root env0 ''cloud'')]
                (Predicate ''ancestors.cloud.reported.kind'' ''=='' (VStr (ustr ''cloud'')) []))
               False None None] None
   \<and> on_section env0 PathRoot
        (Query [Part (CombinedTerm (Predicate ''a'' ''<'' (VInt 1) []) ''and''
                  (Predicate ''ancestors.cloud.reported.kind'' ''=='' (VStr (ustr ''cloud'')) []))
                 False None None] None)
     \<noteq> Query [Part (CombinedTerm (Predicate ''a'' ''<'' (VInt 1) []) ''and''
                  (Predicate ''ancestors.cloud.reported.kind'' ''=='' (VStr (ustr ''cloud'')) []))
                 False None None] None"
  by code_simp

text \<open>
  C3, as the rewrites allow it. The round trip \<open>relative_to_section(on_section(q, s), s)\<close>
  gives \<open>q\<close> back when no path of \<open>q\<close> is one that the backward rewrite cannot restore (a
  meta-rooted path that continues with the section name and a dot; at the root section,
  any meta-rooted path) and the query with its paths rewritten has no path that calls
  for a merge in its current part or its aggregation. \<open>relative_to_section\<close> with
  \<open>PathRoot\<close> leaves every query unchanged. \<open>on_section\<close> with \<open>PathRoot\<close> leaves a query
  unchanged when it has no meta-rooted path and no path that calls for a merge. Settled
  on the model of sections 4.5 and 4.6.
\<close>

theorem section_rewrite_inverse:
  "(\<not> list_ex (clashes s) (all_paths_query q)
      \<and> \<not> rewrite_applies env (change_variable_query (variable_to_absolute s) q)
    \<longrightarrow> relative_to_section s (on_section env s q) = q)
   \<and> (\<not> list_ex meta_rooted (all_paths_query q) \<and> \<not> rewrite_applies env q
    \<longrightarrow> on_section env PathRoot q = q)
   \<and> relative_to_section PathRoot q = q"
proof -
  have "relative_to_section s (on_section env s q) = q"
    if c: "\<not> list_ex (clashes s) (all_paths_query q)"
      and r: "\<not> rewrite_applies env (change_variable_query (variable_to_absolute s) q)"
  proof (cases "s = PathRoot")
    case True
    from c True have m: "\<not> list_ex meta_rooted (all_paths_query q)"
      by (simp add: list_ex_iff clashes_def)
    then have "\<forall>p\<in>set (all_paths_query q). variable_to_absolute PathRoot p = p"
      by (auto simp: list_ex_iff intro: absolute_at_root)
    from change_variable_same(3)[of q "variable_to_absolute PathRoot", OF this] r True
    have "\<not> rewrite_applies env q" by simp
    from on_section_at_root[OF m this] True show ?thesis
      by (simp add: relative_at_root)
  next
    case False
    from c have "\<forall>p\<in>set (all_paths_query q).
        variable_to_relative s (variable_to_absolute s p) = p"
      by (auto simp: list_ex_iff intro: roundtrip_path[OF _ False])
    from change_variable_inverse(3)[of q "variable_to_relative s" "variable_to_absolute s", OF this]
      no_rewrite[OF r]
    show ?thesis by (simp add: relative_to_section_def on_section_def Let_def)
  qed
  moreover have "on_section env PathRoot q = q"
    if "\<not> list_ex meta_rooted (all_paths_query q)" and "\<not> rewrite_applies env q"
    using that by (rule on_section_at_root)
  moreover have "relative_to_section PathRoot q = q"
    by (rule relative_at_root)
  ultimately show ?thesis by simp
qed

text \<open>
  The second part of the test \<open>test_on_section\<close>, \<open>(a < 1 and /metadata.b == 23)\<close>, under
  the section \<open>r\<close>; and at the root section the query \<open>r.a < 1 and metadata.b == 23\<close> that
  the forward rewrite has made of it.
\<close>

theorem section_rewrite_inverse_witness:
  "\<not> list_ex (clashes ''r'') (all_paths_query
        (Query [Part (CombinedTerm (Predicate ''a'' ''<'' (VInt 1) []) ''and''
                        (Predicate ''/metadata.b'' ''=='' (VInt 23) [])) False None None] None))
   \<and> \<not> rewrite_applies env0 (change_variable_query (variable_to_absolute ''r'')
        (Query [Part (CombinedTerm (Predicate ''a'' ''<'' (VInt 1) []) ''and''
                        (Predicate ''/metadata.b'' ''=='' (VInt 23) [])) False None None] None))
   \<and> on_section env0 ''r''
        (Query [Part (CombinedTerm (Predicate ''a'' ''<'' (VInt 1) []) ''and''
                        (Predicate ''/metadata.b'' ''=='' (VInt 23) [])) False None None] None)
       = Query [Part (CombinedTerm (Predicate ''r.a'' ''<'' (VInt 1) []) ''and''
                        (Predicate ''metadata.b'' ''=='' (VInt 23) [])) False None None] None
   \<and> relative_to_section ''r'' (on_section env0 ''r''
        (Query [Part (CombinedTerm (Predicate ''a'' ''<'' (VInt 1) []) ''and''
                        (Predicate ''/metadata.b'' ''=='' (VInt 23) [])) False None None] None))
       = Query [Part (CombinedTerm (Predicate ''a'' ''<'' (VInt 1) []) ''and''
                        (Predicate ''/metadata.b'' ''=='' (VInt 23) [])) False None None] None
   \<and> \<not> list_ex meta_rooted (all_paths_query
        (Query [Part (CombinedTerm (Predicate ''r.a'' ''<'' (VInt 1) []) ''and''
                        (Predicate ''metadata.b'' ''=='' (VInt 23) [])) False None None] None))
   \<and> \<not> rewrite_applies env0
        (Query [Part (CombinedTerm (Predicate ''r.a'' ''<'' (VInt 1) []) ''and''
                        (Predicate ''metadata.b'' ''=='' (VInt 23) [])) False None None] None)
   \<and> on_section env0 PathRoot
        (Query [Part (CombinedTerm (Predicate ''r.a'' ''<'' (VInt 1) []) ''and''
                        (Predicate ''metadata.b'' ''=='' (VInt 23) [])) False None None] None)
       = Query [Part (CombinedTerm (Predicate ''r.a'' ''<'' (VInt 1) []) ''and''
                        (Predicate ''metadata.b'' ''=='' (VInt 23) [])) False None None] None"
proof -
  let ?q = "Query [Part (CombinedTerm (Predicate ''a'' ''<'' (VInt 1) []) ''and''
                        (Predicate ''/metadata.b'' ''=='' (VInt 23) [])) False None None] None"
  let ?a = "Query [Part (CombinedTerm (Predicate ''r.a'' ''<'' (VInt 1) []) ''and''
                        (Predicate ''metadata.b'' ''=='' (VInt 23) [])) False None None] None"
  have c: "\<not> list_ex (clashes ''r'') (all_paths_query ?q)" by code_simp
  have r: "\<not> rewrite_applies env0 (change_variable_query (variable_to_absolute ''r'') ?q)"
    by code_simp
  have o: "on_section env0 ''r'' ?q = ?a" by code_simp
  have m: "\<not> list_ex meta_rooted (all_paths_query ?a)" by code_simp
  have n: "\<not> rewrite_applies env0 ?a" by code_simp
  from section_rewrite_inverse[of "''r''" ?q env0] c r
  have 1: "relative_to_section ''r'' (on_section env0 ''r'' ?q) = ?q" by simp
  from section_rewrite_inverse[of "''r''" ?a env0] m n
  have 2: "on_section env0 PathRoot ?a = ?a" by simp
  show ?thesis by (intro conjI) (rule c r o 1 m n 2)+
qed

subsection \<open>Combining queries\<close>





subsection \<open>The model and the tests\<close>

text \<open>
  The assertions of \<open>model_test.py\<close> on the values of the model. Where the grammar of
  \<open>query_parser.py\<close> has the syntax of the test, the query is the one that \<open>parse_query\<close>
  returns; otherwise it is the value that the test prints. The \<open>with\<close> and \<open>sort\<close> clauses
  are not part of the data of the model.
\<close>

lemma test_simplify:
  "combine (IsTerm [''test'']) ''or'' AllTerm = AllTerm"
  "combine (IsTerm [''test'']) ''and'' AllTerm = IsTerm [''test'']"
  "combine AllTerm ''and'' (combine test_true ''and'' (combine (IsTerm [''test'']) ''or'' AllTerm))
     = test_true"
  by code_simp+

text \<open>
  \<open>test_combine\<close>: \<open>Query.by(P("test") == True).traverse_out()\<close> is the query with the single
  part \<open>test == true -default->\<close>. The lines are the two steps of \<open>query1\<close>, the two steps of
  \<open>query2\<close>, the two steps of \<open>query3\<close>, and the two aggregations.
\<close>

lemma test_combine:
  "Query_combine (Query [Part test_true False (Some out1) None] None) (by_kind ''foo'')
   = Inr (Query [Part (IsTerm [''foo'']) False None None,
                 Part test_true False (Some out1) None] None)"
  "Query_combine (Query [Part (IsTerm [''foo'']) False None None,
                         Part test_true False (Some out1) None] None) (by_kind ''bla'')
   = Inr (Query [Part (CombinedTerm (IsTerm [''foo'']) ''and'' (IsTerm [''bla''])) False None None,
                 Part test_true False (Some out1) None] None)"
  "Query_combine (Query [Part test_true False (Some out1) None] None)
     (Query [Part (IsTerm [''foo'']) False (Some out1) None] None)
   = Inr (Query [Part (IsTerm [''foo'']) False (Some out1) None,
                 Part test_true False (Some out1) None] None)"
  "Query_combine (Query [Part (IsTerm [''foo'']) False (Some out1) None,
                         Part test_true False (Some out1) None] None)
     (Query [Part (IsTerm [''bla'']) False (Some out1) None] None)
   = Inr (Query [Part (IsTerm [''bla'']) False (Some out1) None,
                 Part (IsTerm [''foo'']) False (Some out1) None,
                 Part test_true False (Some out1) None] None)"
  "Query_combine (Query [Part (IsTerm [''bar'']) False None None,
                         Part (IsTerm [''boo'']) False (Some out1) None,
                         Part test_true False (Some out1) None] None) (by_kind ''foo'')
   = Inr (Query [Part (CombinedTerm (IsTerm [''bar'']) ''and'' (IsTerm [''foo''])) False None None,
                 Part (IsTerm [''boo'']) False (Some out1) None,
                 Part test_true False (Some out1) None] None)"
  "Query_combine (Query [Part (CombinedTerm (IsTerm [''bar'']) ''and'' (IsTerm [''foo'']))
                           False None None,
                         Part (IsTerm [''boo'']) False (Some out1) None,
                         Part test_true False (Some out1) None] None) (by_kind ''bla'')
   = Inr (Query [Part (CombinedTerm (CombinedTerm (IsTerm [''bar'']) ''and'' (IsTerm [''foo'']))
                         ''and'' (IsTerm [''bla''])) False None None,
                 Part (IsTerm [''boo'']) False (Some out1) None,
                 Part test_true False (Some out1) None] None)"
  "Query_combine (Query [Part (IsTerm [''a'']) False None None] (Some g))
     (Query [Part (IsTerm [''a'']) False None None] (Some h)) = Inl IncompatibleQuery"
  by code_simp+

lemma test_on_section:
  "on_section env0 ''r'' section_query =
     Query [Part (CombinedTerm (lt ''r.a'') ''and'' (Predicate ''metadata.b'' ''=='' (VInt 23) []))
              False None None,
            Part (CombinedTerm (Predicate ''r.cpu'' ''>'' (VInt 4) []) ''and''
                    (CombinedTerm (Predicate ''r.mem'' ''<'' (VInt 23) []) ''or''
                       (Predicate ''r.mem'' ''<'' (VInt 59) [])))
              False (Some out1) None]
       (Some (Aggregate [''r.foo'', ''r.bla'', ''r.bar''] [(''sum'', ''r.a''), (''sum'', ''r.b'')]))"
  "relative_to_section ''r'' (on_section env0 ''r'' section_query) = section_query"
  "on_section env0 PathRoot (on_section env0 ''r'' section_query)
     = on_section env0 ''r'' section_query"
  "relative_to_section PathRoot (on_section env0 ''r'' section_query)
     = on_section env0 ''r'' section_query"
  by code_simp+

text \<open>
  \<open>test_rewrite_ancestors_descendants\<close>, in the order of the test; \<open>on_section()\<close> is
  \<open>on_section\<close> at the root section.
\<close>

lemma test_rewrite_ancestors_descendants:
  "parse_query env0 ''(a<1 and b>1) or c==3'' =
     Inr (Query [Part (CombinedTerm (CombinedTerm (lt ''a'') ''and'' (gt ''b'')) ''or''
                   (Predicate ''c'' ''=='' (VInt 3) [])) False None None] None)"
  "map_sum id (on_section env0 PathRoot)
     (parse_query env0 ''a<1 and ancestors.cloud.reported.name==\"test\"'')
   = Inr (Query [Part (CombinedTerm (lt ''a'') ''and''
                   (eqs ''ancestors.cloud.reported.name'' ''test'')) False None None] None)"
  "map_sum id (on_section env0 PathRoot)
     (parse_query env0 ''a<1 and ancestors.cloud.reported.kind==\"cloud\"'')
   = Inr (Query [Part (MergeTerm (lt ''a'')
                   [MergeQuery ''ancestors.cloud'' (until_root env0 ''cloud'')]
                   (eqs ''ancestors.cloud.reported.kind'' ''cloud'')) False None None] None)"
  "map_sum id (on_section env0 PathRoot)
     (parse_query env0
        ''a<1 and ancestors.cloud.reported.kind==\"c\" and ancestors.account.reported.kind==\"a\"'')
   = Inr (Query [Part (MergeTerm (lt ''a'')
                   [MergeQuery ''ancestors.cloud'' (until_root env0 ''cloud''),
                    MergeQuery ''ancestors.account'' (until_root env0 ''account'')]
                   (CombinedTerm (eqs ''ancestors.cloud.reported.kind'' ''c'') ''and''
                      (eqs ''ancestors.account.reported.kind'' ''a''))) False None None] None)"
  "on_section env0 PathRoot
     (Query [Part (MergeTerm (lt ''a'')
               [MergeQuery ''children[]''
                  (Query [Part AllTerm False None None, Part AllTerm False (Some out1) None] None)]
               (eqs ''ancestors.cloud.reported.kind'' ''c'')) False None None] None)
   = Query [Part (MergeTerm (lt ''a'')
             [MergeQuery ''ancestors.cloud'' (until_root env0 ''cloud''),
              MergeQuery ''children[]''
                (Query [Part AllTerm False None None, Part AllTerm False (Some out1) None] None)]
             (eqs ''ancestors.cloud.reported.kind'' ''c'')) False None None] None"
  "on_section env0 PathRoot
     (Query [Part (MergeTerm (lt ''a'')
               [MergeQuery ''ancestors.cloud''
                  (Query [Part (IsTerm [''region'']) False None None,
                          Part AllTerm False (Some out1) None] None)]
               (eqs ''ancestors.cloud.reported.kind'' ''c'')) False None None] None)
   = Query [Part (MergeTerm (lt ''a'')
             [MergeQuery ''ancestors.cloud''
                (Query [Part (IsTerm [''region'']) False None None,
                        Part AllTerm False (Some out1) None] None)]
             (eqs ''ancestors.cloud.reported.kind'' ''c'')) False None None] None"
  "map_sum id (on_section env0 PathRoot) (parse_query env0 ''(a<1 and b>1) or ancestors.d.c<1'')
   = Inr (Query [Part (MergeTerm AllTerm [MergeQuery ''ancestors.d'' (until_root env0 ''d'')]
                   (CombinedTerm (CombinedTerm (lt ''a'') ''and'' (gt ''b'')) ''or''
                      (lt ''ancestors.d.c''))) False None None] None)"
  "on_section env0 PathRoot (Query [Part special_example False None None] None)
   = Query [Part (MergeTerm (CombinedTerm (lt ''a'') ''or'' (gt ''b''))
             [MergeQuery ''ancestors.d'' (until_root env0 ''d''),
              MergeQuery ''ancestors.a'' (until_root env0 ''a'')]
             (CombinedTerm (lt ''ancestors.d.c'') ''and'' (gt ''ancestors.a.b'')))
            False None None] None"
  "on_section env0 PathRoot
     (Query [Part (CombinedTerm (CombinedTerm (lt ''a'') ''and'' (gt ''b'')) ''and''
               (CombinedTerm (Predicate ''c'' ''<'' (VStr (ustr ''d'')) []) ''or''
                  (lt ''/ancestors.d.c''))) False None None] None)
   = Query [Part (MergeTerm (CombinedTerm (lt ''a'') ''and'' (gt ''b''))
             [MergeQuery ''ancestors.d'' (until_root env0 ''d'')]
             (CombinedTerm (Predicate ''c'' ''<'' (VStr (ustr ''d'')) []) ''or''
                (lt ''ancestors.d.c''))) False None None] None"
  "on_section env0 PathRoot
     (Query [Part (CombinedTerm
               (CombinedTerm (Predicate ''c'' ''<'' (VStr (ustr ''d'')) []) ''or''
                  (lt ''/ancestors.d.c''))
               ''and'' (CombinedTerm (lt ''a'') ''and'' (gt ''b''))) False None None] None)
   = Query [Part (MergeTerm (CombinedTerm (lt ''a'') ''and'' (gt ''b''))
             [MergeQuery ''ancestors.d'' (until_root env0 ''d'')]
             (CombinedTerm (Predicate ''c'' ''<'' (VStr (ustr ''d'')) []) ''or''
                (lt ''ancestors.d.c''))) False None None] None"
  "on_section env0 PathRoot
     (Query [Part (CombinedTerm
               (CombinedTerm
                  (CombinedTerm (CombinedTerm (lt ''/ancestors.a.b'') ''and'' (gt ''ancestors.a.c''))
                     ''and'' (Predicate ''ancestors.a.d'' ''='' (VInt 3) []))
                  ''and'' (gt ''ancestors.b.c''))
               ''and'' (Predicate ''a'' ''=='' (VInt 1) [])) False None None] None)
   = Query [Part (MergeTerm (Predicate ''a'' ''=='' (VInt 1) [])
             [MergeQuery ''ancestors.a'' (until_root env0 ''a''),
              MergeQuery ''ancestors.b'' (until_root env0 ''b'')]
             (CombinedTerm
                 (CombinedTerm (CombinedTerm (lt ''ancestors.a.b'') ''and'' (gt ''ancestors.a.c''))
                    ''and'' (Predicate ''ancestors.a.d'' ''='' (VInt 3) []))
                 ''and'' (gt ''ancestors.b.c''))) False None None] None"
  "on_section env0 PathRoot
     (Query [Part (IsTerm [''volume'']) False None None]
        (Some (Aggregate [''/ancestors.a.reported.name''] [])))
   = Query [Part (MergeTerm (IsTerm [''volume''])
                    [MergeQuery ''ancestors.a'' (until_root env0 ''a'')] AllTerm)
              False None None]
       (Some (Aggregate [''ancestors.a.reported.name''] []))"
  by code_simp+

lemma test_merge_query_creation:
  "merge_queries_for env0 (Part AllTerm False None None) [''ancestors.foo.reported.bla'']
     = Inr [MergeQuery ''ancestors.foo'' (until_root env0 ''foo'')]"
  "merge_queries_for env0
     (Part (MergeTerm AllTerm [MergeQuery ''ancestors.foo'' (until_root env0 ''foo'')] AllTerm)
        False None None) [''ancestors.foo.reported.bla'']
     = Inr [MergeQuery ''ancestors.foo'' (until_root env0 ''foo'')]"
  "merge_queries_for env0 (Part AllTerm False None None) [''unknown.foo.reported.bla'']
     = Inl InvalidMergePath"
  "merge_queries_for env0 (Part AllTerm False None None) [''ancestors.foo''] = Inl InvalidMergePath"
  "rewrite_for_ancestors_descendants env0 [''ancestors.kind.reported.prop'', ''test'', ''a'']
     (by_kind ''test'')
     = Query [Part (MergeTerm (IsTerm [''test''])
                      [MergeQuery ''ancestors.kind'' (until_root env0 ''kind'')] AllTerm)
                False None None] None"
  "rewrite_for_ancestors_descendants env0 [''ancestors.kind.reported.prop'', ''test'', ''a'']
     (Query [cloud_scenario] None)
     = Query [Part (MergeTerm (IsTerm [''test''])
               [MergeQuery ''ancestors.kind'' (until_root env0 ''kind''),
                MergeQuery ''ancestors.cloud'' (until_root env0 ''cloud'')] AllTerm)
         False None None] None"
  by code_simp+

end
